theory Spec2Isabelle
  imports Main "HOL-Library.Monad_Syntax" "HOL-Library.Multiset"
begin

section \<open>Snake game: constants, positions, entities\<close>

text \<open>
  The embedding follows \<^verbatim>\<open>snake.py\<close>. Positions are pairs of Python integers (pixel
  coordinates, multiples of the cell size). Drawing, sound and the cosmetic particle list
  of the food are left out: no decision of the game loop reads them.
\<close>

type_synonym pos = "int \<times> int"

definition CELL_SIZE :: int where
  "CELL_SIZE = 20"

definition FPS :: int where
  "FPS = 15"

datatype pyerr = IndexError | KeyError | TypeError | ZeroDivisionError | AttributeError

text \<open>The keys of \<^verbatim>\<open>POWERUP_TYPES\<close>; both entries carry the duration \<^verbatim>\<open>FPS * 5\<close>.\<close>

datatype ptype = speed_boost | slow_down

definition duration :: "ptype \<Rightarrow> int" where
  "duration t = (case t of speed_boost \<Rightarrow> FPS * 5 | slow_down \<Rightarrow> FPS * 5)"

record powerup =
  position :: pos
  ptype_of :: ptype

text \<open>
  The entities a running \<^verbatim>\<open>game_loop\<close> owns: the snake (body, head first, direction,
  skin), the food (position, skin), the obstacle positions, the powerups on the field, the
  score, the active effect with its timer, and the interval of the \<^verbatim>\<open>MOVE_EVENT\<close> timer
  as last set by \<^verbatim>\<open>pygame.time.set_timer\<close>.
\<close>

record session =
  body :: "pos list"
  direction :: pos
  snake_skin_idx :: int
  food_position :: pos
  food_skin_idx :: int
  obstacles :: "pos list"
  powerups :: "powerup list"
  score :: int
  powerup_active :: "ptype option"
  powerup_timer :: int
  move_interval :: int

text \<open>The arguments of \<^verbatim>\<open>game_loop\<close> and the screen size it reads.\<close>

record config =
  width :: int
  height :: int
  speed :: int
  cfg_snake_skin :: int
  cfg_fruit_skin :: int

section \<open>Tick intervals\<close>

text \<open>
  \<^verbatim>\<open>int(1000 / n)\<close>: Python's true division followed by truncation towards zero. For
  integers \<open>n \<noteq> 0\<close> the quotient \<open>1000 / n\<close> is either an integer or at least \<open>1 / \<bar>n\<bar>\<close>
  away from one, far more than the rounding of a double, so the result is the integer
  quotient truncated towards zero. Division by zero raises.
\<close>

definition trunc_div :: "int \<Rightarrow> int \<Rightarrow> int" where
  "trunc_div a b = sgn a * sgn b * (\<bar>a\<bar> div \<bar>b\<bar>)"

definition int_div :: "int \<Rightarrow> int \<Rightarrow> pyerr + int" where
  "int_div a b = (if b = 0 then Inl ZeroDivisionError else Inr (trunc_div a b))"

definition initial_game_speed_ms :: "config \<Rightarrow> pyerr + int" where
  "initial_game_speed_ms cfg = int_div 1000 (speed cfg)"

text \<open>
  The interval installed for an effect, as written at each of the three places that apply
  one: \<^verbatim>\<open>max(50, int(1000 / (speed + 10)))\<close> and
  \<^verbatim>\<open>int(1000 / max(1, speed - 5))\<close>.
\<close>

definition effect_interval :: "config \<Rightarrow> ptype \<Rightarrow> pyerr + int" where
  "effect_interval cfg t =
     (case t of
        speed_boost \<Rightarrow>
          (case int_div 1000 (speed cfg + 10) of
             Inl e \<Rightarrow> Inl e
           | Inr v \<Rightarrow> Inr (max 50 v))
      | slow_down \<Rightarrow> int_div 1000 (max 1 (speed cfg - 5)))"

section \<open>Key dispatch while running\<close>

datatype key =
  K_UP | K_DOWN | K_LEFT | K_RIGHT | K_w | K_a | K_s | K_d | K_l | K_p | K_ESCAPE | K_other

text \<open>
  The branch of the \<^verbatim>\<open>if/elif\<close> chain that a key press selects while not paused. The
  save branch gathers the state into a document; the load branch re-reads the save file
  (see \<open>game_loop_start\<close> for that path).
\<close>

datatype key_action = Set_Direction pos | Save_Game | Load_Game | No_Action

definition dispatch :: "key \<Rightarrow> pos \<Rightarrow> key_action" where
  "dispatch k d =
     (if k \<in> {K_UP, K_w} \<and> d \<noteq> (0, CELL_SIZE) then Set_Direction (0, - CELL_SIZE)
      else if k \<in> {K_DOWN, K_s} \<and> d \<noteq> (0, - CELL_SIZE) then Set_Direction (0, CELL_SIZE)
      else if k \<in> {K_LEFT, K_a} \<and> d \<noteq> (CELL_SIZE, 0) then Set_Direction (- CELL_SIZE, 0)
      else if k \<in> {K_RIGHT, K_d} \<and> d \<noteq> (- CELL_SIZE, 0) then Set_Direction (CELL_SIZE, 0)
      else if k = K_s then Save_Game
      else if k = K_l then Load_Game
      else No_Action)"

text \<open>The snake's direction after the selected branch (the load branch replaces the snake).\<close>

definition direction_after :: "key \<Rightarrow> pos \<Rightarrow> pos option" where
  "direction_after k d =
     (case dispatch k d of
        Set_Direction v \<Rightarrow> Some v
      | Save_Game \<Rightarrow> Some d
      | No_Action \<Rightarrow> Some d
      | Load_Game \<Rightarrow> None)"

text \<open>The four directions a request can name, their keys and their unit vectors.\<close>

datatype dir = Up | Down | Left | Right

definition vec :: "dir \<Rightarrow> pos" where
  "vec r = (case r of Up \<Rightarrow> (0, - CELL_SIZE) | Down \<Rightarrow> (0, CELL_SIZE)
            | Left \<Rightarrow> (- CELL_SIZE, 0) | Right \<Rightarrow> (CELL_SIZE, 0))"

definition reverse :: "dir \<Rightarrow> dir" where
  "reverse r = (case r of Up \<Rightarrow> Down | Down \<Rightarrow> Up | Left \<Rightarrow> Right | Right \<Rightarrow> Left)"

definition keys_of :: "dir \<Rightarrow> key list" where
  "keys_of r = (case r of Up \<Rightarrow> [K_UP, K_w] | Down \<Rightarrow> [K_DOWN, K_s]
                | Left \<Rightarrow> [K_LEFT, K_a] | Right \<Rightarrow> [K_RIGHT, K_d])"

section \<open>The snake\<close>

text \<open>
  \<^verbatim>\<open>Snake.move\<close> reads \<^verbatim>\<open>self.body[0]\<close>, which raises on an empty body, and inserts the
  new head at index 0. \<^verbatim>\<open>Snake.shrink_tail\<close> pops the last segment.
\<close>

definition move :: "session \<Rightarrow> pyerr + session" where
  "move s =
     (case body s of
        [] \<Rightarrow> Inl IndexError
      | (head_x, head_y) # _ \<Rightarrow>
          (case direction s of
             (dx, dy) \<Rightarrow> Inr (s\<lparr>body := (head_x + dx, head_y + dy) # body s\<rparr>)))"

definition shrink_tail :: "session \<Rightarrow> pyerr + session" where
  "shrink_tail s =
     (if body s = [] then Inl IndexError else Inr (s\<lparr>body := butlast (body s)\<rparr>))"

section \<open>Random placement\<close>

text \<open>
  The values returned by \<^verbatim>\<open>random\<close> are inputs of the model. A draw is the pair of
  results of the two \<^verbatim>\<open>random.randint\<close> calls of \<^verbatim>\<open>random_position\<close>; \<open>in_range\<close>
  says that both lie in the interval \<^verbatim>\<open>randint\<close> was asked for.
\<close>

definition random_position :: "int \<Rightarrow> int \<Rightarrow> int \<times> int \<Rightarrow> pos" where
  "random_position w h r = (fst r * CELL_SIZE, snd r * CELL_SIZE)"

definition in_range :: "int \<Rightarrow> int \<Rightarrow> int \<times> int \<Rightarrow> bool" where
  "in_range w h r =
     (0 \<le> fst r \<and> fst r \<le> (w - CELL_SIZE) div CELL_SIZE \<and>
      0 \<le> snd r \<and> snd r \<le> (h - CELL_SIZE) div CELL_SIZE)"

text \<open>
  What one move tick draws, by call site: whether \<^verbatim>\<open>random.random() < 0.2\<close> held, the
  positions drawn by the powerup loop, the type \<^verbatim>\<open>random.choice\<close> picked, the positions
  drawn by the food loop, and those drawn by the obstacle loop.
\<close>

record rand =
  spawn_roll :: bool
  powerup_draws :: "nat \<Rightarrow> int \<times> int"
  powerup_choice :: ptype
  food_draws :: "nat \<Rightarrow> int \<times> int"
  obstacle_draws :: "nat \<Rightarrow> int \<times> int"

text \<open>
  \<^verbatim>\<open>while attempts < 100\<close>: draw a position, take it when it is not among the occupied
  ones, otherwise count the attempt; give up after 100.
\<close>

function place_attempt ::
  "(nat \<Rightarrow> int \<times> int) \<Rightarrow> int \<Rightarrow> int \<Rightarrow> pos list \<Rightarrow> nat \<Rightarrow> pos option" where
  "place_attempt draws w h occ attempts =
     (if attempts < 100 then
        (let p = random_position w h (draws attempts) in
         if p \<notin> set occ then Some p
         else place_attempt draws w h occ (attempts + 1))
      else None)"
  by pat_completeness auto
termination
  by (relation "measure (\<lambda>(draws, w, h, occ, attempts). 100 - attempts)") auto

declare place_attempt.simps [simp del]

text \<open>\<^verbatim>\<open>while True\<close>: the food loop has no cap; it returns only when a draw is free.\<close>

partial_function (option) respawn_food ::
  "(nat \<Rightarrow> int \<times> int) \<Rightarrow> int \<Rightarrow> int \<Rightarrow> pos list \<Rightarrow> nat \<Rightarrow> pos option" where
  "respawn_food draws w h occ i =
     (let new_pos = random_position w h (draws i) in
      if new_pos \<notin> set occ then Some new_pos
      else respawn_food draws w h occ (Suc i))"

declare respawn_food.simps [code]

section \<open>The move tick\<close>

definition max_obstacles :: "config \<Rightarrow> int" where
  "max_obstacles cfg =
     max 10 (((width cfg div CELL_SIZE) * (height cfg div CELL_SIZE) * 5) div 1000)"

definition spawn_powerup :: "config \<Rightarrow> rand \<Rightarrow> session \<Rightarrow> session" where
  "spawn_powerup cfg orc s =
     (if spawn_roll orc then
        (case place_attempt (powerup_draws orc) (width cfg) (height cfg)
                (body s @ [food_position s] @ obstacles s @ map position (powerups s)) 0 of
           None \<Rightarrow> s
         | Some ppos \<Rightarrow>
             s\<lparr>powerups := powerups s @ [\<lparr>position = ppos, ptype_of = powerup_choice orc\<rparr>]\<rparr>)
      else s)"

definition add_obstacle :: "config \<Rightarrow> rand \<Rightarrow> session \<Rightarrow> session" where
  "add_obstacle cfg orc s =
     (if score s > 0 \<and> score s mod 20 = 0 \<and> int (length (obstacles s)) < max_obstacles cfg then
        (case place_attempt (obstacle_draws orc) (width cfg) (height cfg)
                (body s @ [food_position s] @ map position (powerups s) @ obstacles s) 0 of
           None \<Rightarrow> s
         | Some p \<Rightarrow> s\<lparr>obstacles := obstacles s @ [p]\<rparr>)
      else s)"

text \<open>
  The food branch: score, powerup spawn, food respawn, obstacle. \<open>None\<close> is the food loop
  never returning.
\<close>

definition eat :: "config \<Rightarrow> rand \<Rightarrow> session \<Rightarrow> session option" where
  "eat cfg orc s =
     (let s1 = spawn_powerup cfg orc (s\<lparr>score := score s + 1\<rparr>) in
      case respawn_food (food_draws orc) (width cfg) (height cfg)
             (body s1 @ obstacles s1 @ map position (powerups s1)) 0 of
        None \<Rightarrow> None
      | Some new_pos \<Rightarrow> Some (add_obstacle cfg orc (s1\<lparr>food_position := new_pos\<rparr>)))"

text \<open>
  The \<^verbatim>\<open>for p in powerups\<close> loop: the first powerup on the head's cell becomes the
  active effect, leaves the field and sets the timer interval; the loop breaks there.
  \<^verbatim>\<open>powerups.remove(p)\<close> takes out that very object; \<open>remove1\<close> takes out the first equal
  record, which is the same element, since an earlier equal one would have been found.
\<close>

definition collect_powerup :: "config \<Rightarrow> pos \<Rightarrow> session \<Rightarrow> pyerr + session" where
  "collect_powerup cfg head s =
     (case find (\<lambda>p. position p = head) (powerups s) of
        None \<Rightarrow> Inr s
      | Some p \<Rightarrow>
          (case effect_interval cfg (ptype_of p) of
             Inl e \<Rightarrow> Inl e
           | Inr ms \<Rightarrow>
               Inr (s\<lparr>powerup_active := Some (ptype_of p),
                      powerup_timer := duration (ptype_of p),
                      powerups := remove1 p (powerups s),
                      move_interval := ms\<rparr>)))"

definition manage_timer :: "int \<Rightarrow> session \<Rightarrow> session" where
  "manage_timer base s =
     (if powerup_active s \<noteq> None then
        (if powerup_timer s - 1 \<le> 0
         then s\<lparr>powerup_timer := powerup_timer s - 1, powerup_active := None,
                move_interval := base\<rparr>
         else s\<lparr>powerup_timer := powerup_timer s - 1\<rparr>)
      else s)"

text \<open>
  One \<^verbatim>\<open>MOVE_EVENT\<close> while not paused. \<open>Game_Over\<close> is the call of \<^verbatim>\<open>game_over(score)\<close>
  followed by \<^verbatim>\<open>return\<close>, with the state as it is at that point; \<open>Raised\<close> is an
  exception leaving \<^verbatim>\<open>game_loop\<close>; the result \<open>None\<close> is the food loop never returning.
  The base interval is the local \<^verbatim>\<open>initial_game_speed_ms\<close>, computed before the loop.
\<close>

datatype tick_result = Game_Over session | Continue session | Raised pyerr

definition after_food :: "config \<Rightarrow> int \<Rightarrow> pos \<Rightarrow> session \<Rightarrow> tick_result" where
  "after_food cfg base head s =
     (case collect_powerup cfg head s of
        Inl e \<Rightarrow> Raised e
      | Inr s' \<Rightarrow> Continue (manage_timer base s'))"

definition move_tick :: "config \<Rightarrow> rand \<Rightarrow> session \<Rightarrow> tick_result option" where
  "move_tick cfg orc s =
     (case initial_game_speed_ms cfg of
        Inl e \<Rightarrow> Some (Raised e)
      | Inr base \<Rightarrow>
     (case move s of
        Inl e \<Rightarrow> Some (Raised e)
      | Inr s1 \<Rightarrow>
     (case body s1 of
        [] \<Rightarrow> Some (Raised IndexError)
      | head # rest \<Rightarrow>
          if \<not> (0 \<le> fst head \<and> fst head < width cfg \<and> 0 \<le> snd head \<and> snd head < height cfg)
          then Some (Game_Over s1)
          else if head \<in> set rest then Some (Game_Over s1)
          else if head \<in> set (obstacles s1) then Some (Game_Over s1)
          else if head = food_position s1 then
            (case eat cfg orc s1 of
               None \<Rightarrow> None
             | Some s2 \<Rightarrow> Some (after_food cfg base head s2))
          else
            (case shrink_tail s1 of
               Inl e \<Rightarrow> Some (Raised e)
             | Inr s2 \<Rightarrow> Some (after_food cfg base head s2)))))"

text \<open>
  Vocabulary for the properties below: the head a tick moves to, and the three conditions
  the tick tests on it (off the board, on a segment of the body, on an obstacle).
\<close>

definition new_head :: "session \<Rightarrow> pos" where
  "new_head s = (fst (hd (body s)) + fst (direction s), snd (hd (body s)) + snd (direction s))"

definition hits_wall :: "config \<Rightarrow> pos \<Rightarrow> bool" where
  "hits_wall cfg p = (\<not> (0 \<le> fst p \<and> fst p < width cfg \<and> 0 \<le> snd p \<and> snd p < height cfg))"

definition fatal :: "config \<Rightarrow> session \<Rightarrow> bool" where
  "fatal cfg s =
     (hits_wall cfg (new_head s) \<or> new_head s \<in> set (body s) \<or> new_head s \<in> set (obstacles s))"

text \<open>
  The cells the food loop of a tick from \<open>s\<close> must avoid: the moved snake, the obstacles
  and the powerups, after the powerup spawn of that tick.
\<close>

definition respawn_occupied :: "config \<Rightarrow> rand \<Rightarrow> session \<Rightarrow> pos list" where
  "respawn_occupied cfg orc s =
     (let s1 = spawn_powerup cfg orc (s\<lparr>body := new_head s # body s, score := score s + 1\<rparr>)
      in body s1 @ obstacles s1 @ map position (powerups s1))"

section \<open>Starting a session\<close>

definition start_pos :: "config \<Rightarrow> pos" where
  "start_pos cfg =
     ((width cfg div CELL_SIZE) div 2 * CELL_SIZE, (height cfg div CELL_SIZE) div 2 * CELL_SIZE)"

text \<open>
  The objects \<^verbatim>\<open>game_loop\<close> creates before it looks at the save file, and again when a
  load fails: a one-segment snake at the grid centre heading right, food at a drawn
  position, no obstacles, no powerups, score 0, no effect, the base interval.
\<close>

definition new_session :: "config \<Rightarrow> int \<Rightarrow> int \<times> int \<Rightarrow> session" where
  "new_session cfg base r =
     \<lparr>body = [start_pos cfg], direction = (CELL_SIZE, 0), snake_skin_idx = cfg_snake_skin cfg,
      food_position = random_position (width cfg) (height cfg) r,
      food_skin_idx = cfg_fruit_skin cfg, obstacles = [], powerups = [], score = 0,
      powerup_active = None, powerup_timer = 0, move_interval = base\<rparr>"

section \<open>The save file\<close>

text \<open>
  Values as \<^verbatim>\<open>json.load\<close> returns them: \<open>JNull\<close> is Python's \<^verbatim>\<open>None\<close>, an object is a
  dict given by its items in order (keys distinct), a tuple made by \<^verbatim>\<open>tuple(...)\<close> is the
  list of its elements. Numbers are integers: the documents \<^verbatim>\<open>save_game_state\<close> writes
  hold no floats. A file is described by what \<^verbatim>\<open>json.load\<close> does with it: it returns a
  value, raises \<^verbatim>\<open>JSONDecodeError\<close>, or raises something else (the file cannot be read).
\<close>

datatype json =
  JNull | JBool bool | JInt int | JStr string | JArr "json list" | JObj "(string \<times> json) list"

datatype 'a stored = Json 'a | Malformed | Unreadable

text \<open>
  \<^verbatim>\<open>load_game\<close>: the returned value, the save file afterwards, and the line printed.
\<close>

definition load_game :: "json stored option \<Rightarrow> json \<times> json stored option \<times> string" where
  "load_game f =
     (case f of
        Some (Json v) \<Rightarrow> (v, f, [])
      | Some Malformed \<Rightarrow> (JNull, None, ''Error: Save file corrupted. Cannot load game.'')
      | Some Unreadable \<Rightarrow> (JNull, f, ''Error loading game: '')
      | None \<Rightarrow> (JNull, None, ''No save game found.''))"

text \<open>Python's truth value of a loaded document.\<close>

definition truthy :: "json \<Rightarrow> bool" where
  "truthy v =
     (case v of
        JNull \<Rightarrow> False
      | JBool b \<Rightarrow> b
      | JInt n \<Rightarrow> n \<noteq> 0
      | JStr s \<Rightarrow> s \<noteq> []
      | JArr xs \<Rightarrow> xs \<noteq> []
      | JObj kvs \<Rightarrow> kvs \<noteq> [])"

text \<open>
  \<^verbatim>\<open>v[k]\<close> for a string key and \<^verbatim>\<open>tuple(v)\<close> (or iterating \<^verbatim>\<open>v\<close>); \<open>None\<close> is an
  exception, and \<^verbatim>\<open>load_game_state\<close> turns every exception into the result \<^verbatim>\<open>False\<close>.
  A string is iterated by character and a dict by key.
\<close>

definition getitem :: "json \<Rightarrow> string \<Rightarrow> json option" where
  "getitem v k = (case v of JObj kvs \<Rightarrow> map_of kvs k | _ \<Rightarrow> None)"

definition py_iter :: "json \<Rightarrow> json list option" where
  "py_iter v =
     (case v of
        JArr xs \<Rightarrow> Some xs
      | JStr s \<Rightarrow> Some (map (\<lambda>c. JStr [c]) s)
      | JObj kvs \<Rightarrow> Some (map (\<lambda>kv. JStr (fst kv)) kvs)
      | _ \<Rightarrow> None)"

text \<open>\<^verbatim>\<open>d.get(k, default)\<close>; only a dict has the method.\<close>

definition dict_get :: "json \<Rightarrow> string \<Rightarrow> json \<Rightarrow> pyerr + json" where
  "dict_get v k dflt =
     (case v of
        JObj kvs \<Rightarrow> (case map_of kvs k of None \<Rightarrow> Inr dflt | Some x \<Rightarrow> Inr x)
      | _ \<Rightarrow> Inl AttributeError)"

fun all_some :: "'a option list \<Rightarrow> 'a list option" where
  "all_some [] = Some []"
| "all_some (None # _) = None"
| "all_some (Some x # xs) = (case all_some xs of None \<Rightarrow> None | Some ys \<Rightarrow> Some (x # ys))"

text \<open>\<^verbatim>\<open>[tuple(pos) for pos in v]\<close>.\<close>

definition tuples :: "json \<Rightarrow> json list list option" where
  "tuples v = do { items \<leftarrow> py_iter v; all_some (map py_iter items) }"

text \<open>\<^verbatim>\<open>POWERUP_TYPES[type_]\<close> in \<^verbatim>\<open>Powerup.__init__\<close>: only the two keys are found.\<close>

definition ptype_lookup :: "json \<Rightarrow> ptype option" where
  "ptype_lookup v =
     (case v of
        JStr s \<Rightarrow> (if s = ''speed_boost'' then Some speed_boost
                   else if s = ''slow_down'' then Some slow_down else None)
      | _ \<Rightarrow> None)"

text \<open>\<^verbatim>\<open>Powerup(tuple(p["pos"]), p["type"])\<close>.\<close>

definition powerup_of :: "json \<Rightarrow> (json list \<times> ptype) option" where
  "powerup_of p =
     do { pos \<leftarrow> getitem p ''pos''; t \<leftarrow> py_iter pos;
          ty \<leftarrow> getitem p ''type''; pt \<leftarrow> ptype_lookup ty;
          Some (t, pt) }"

text \<open>
  What \<^verbatim>\<open>load_game_state\<close> stores into the snake, the food and the two lists when it
  returns \<^verbatim>\<open>True\<close>. Nothing checks that a position is a pair of numbers, so the fields
  hold tuples of arbitrary values. The result \<open>None\<close> is the return value \<^verbatim>\<open>False\<close>; both
  callers then replace every object the function has touched.
\<close>

record loaded =
  l_body :: "json list list"
  l_direction :: "json list"
  l_snake_skin :: json
  l_food_position :: "json list"
  l_food_skin :: json
  l_obstacles :: "json list list"
  l_powerups :: "(json list \<times> ptype) list"

definition load_game_state :: "json \<Rightarrow> loaded option" where
  "load_game_state state =
     do { snake \<leftarrow> getitem state ''snake''; b \<leftarrow> tuples snake;
          dv \<leftarrow> getitem state ''direction''; d \<leftarrow> py_iter dv;
          fv \<leftarrow> getitem state ''food_pos''; fp \<leftarrow> py_iter fv;
          ov \<leftarrow> getitem state ''obstacles''; obs \<leftarrow> tuples ov;
          pv \<leftarrow> getitem state ''powerups''; ps \<leftarrow> py_iter pv;
          pws \<leftarrow> all_some (map powerup_of ps);
          Some \<lparr>l_body = b, l_direction = d,
                l_snake_skin = (case getitem state ''snake_skin_idx'' of None \<Rightarrow> JInt 0 | Some x \<Rightarrow> x),
                l_food_position = fp,
                l_food_skin = (case getitem state ''food_skin_idx'' of None \<Rightarrow> JInt 0 | Some x \<Rightarrow> x),
                l_obstacles = obs, l_powerups = pws\<rparr> }"

text \<open>
  \<^verbatim>\<open>save_game_state\<close> gathers the session into a dict; the document is given here as
  \<^verbatim>\<open>json.load\<close> reads it back after \<^verbatim>\<open>json.dump\<close>, a position tuple being written as a
  two-element array and \<^verbatim>\<open>None\<close> as null. \<open>pos_tuple\<close> is the tuple \<^verbatim>\<open>tuple(pos)\<close> makes
  of such an array.
\<close>

definition ptype_name :: "ptype \<Rightarrow> string" where
  "ptype_name t = (case t of speed_boost \<Rightarrow> ''speed_boost'' | slow_down \<Rightarrow> ''slow_down'')"

definition pos_tuple :: "pos \<Rightarrow> json list" where
  "pos_tuple p = [JInt (fst p), JInt (snd p)]"

definition pos_json :: "pos \<Rightarrow> json" where
  "pos_json p = JArr (pos_tuple p)"

definition save_game_state :: "session \<Rightarrow> json" where
  "save_game_state s =
     JObj [(''snake'', JArr (map pos_json (body s))),
           (''direction'', pos_json (direction s)),
           (''food_pos'', pos_json (food_position s)),
           (''food_skin_idx'', JInt (food_skin_idx s)),
           (''obstacles'', JArr (map pos_json (obstacles s))),
           (''powerups'',
              JArr (map (\<lambda>p. JObj [(''pos'', pos_json (position p)),
                                     (''type'', JStr (ptype_name (ptype_of p)))])
                        (powerups s))),
           (''score'', JInt (score s)),
           (''powerup_active'',
              (case powerup_active s of None \<Rightarrow> JNull | Some t \<Rightarrow> JStr (ptype_name t))),
           (''powerup_timer'', JInt (powerup_timer s)),
           (''snake_skin_idx'', JInt (snake_skin_idx s))]"

text \<open>
  The objects a load makes of the document \<open>save_game_state s\<close>: every position as the
  tuple of its two numbers, the skins as numbers, each powerup with its type.
\<close>

definition loaded_of :: "session \<Rightarrow> loaded" where
  "loaded_of s =
     \<lparr>l_body = map pos_tuple (body s), l_direction = pos_tuple (direction s),
      l_snake_skin = JInt (snake_skin_idx s), l_food_position = pos_tuple (food_position s),
      l_food_skin = JInt (food_skin_idx s), l_obstacles = map pos_tuple (obstacles s),
      l_powerups = map (\<lambda>p. (pos_tuple (position p), ptype_of p)) (powerups s)\<rparr>"

text \<open>
  A session that starts from the save file: the loaded objects, the score, the active
  effect and its timer as read with \<^verbatim>\<open>loaded_state.get\<close>, and the timer interval.
\<close>

record resumed =
  entities :: loaded
  r_score :: json
  r_powerup_active :: json
  r_powerup_timer :: json
  r_move_interval :: int

datatype start = New_Session session | Resumed resumed

text \<open>The interval applied again after a load, from the loaded \<^verbatim>\<open>powerup_active\<close>.\<close>

definition reapply_speed :: "config \<Rightarrow> int \<Rightarrow> json \<Rightarrow> pyerr + int" where
  "reapply_speed cfg base active =
     (if active = JStr ''speed_boost'' then effect_interval cfg speed_boost
      else if active = JStr ''slow_down'' then effect_interval cfg slow_down
      else Inr base)"

definition resume :: "config \<Rightarrow> int \<Rightarrow> json \<Rightarrow> loaded \<Rightarrow> pyerr + resumed" where
  "resume cfg base loaded_state l =
     (case dict_get loaded_state ''score'' (JInt 0) of Inl e \<Rightarrow> Inl e | Inr sc \<Rightarrow>
      case dict_get loaded_state ''powerup_active'' JNull of Inl e \<Rightarrow> Inl e | Inr pa \<Rightarrow>
      case dict_get loaded_state ''powerup_timer'' (JInt 0) of Inl e \<Rightarrow> Inl e | Inr pt \<Rightarrow>
      case reapply_speed cfg base pa of Inl e \<Rightarrow> Inl e | Inr ms \<Rightarrow>
        Inr \<lparr>entities = l, r_score = sc, r_powerup_active = pa, r_powerup_timer = pt,
             r_move_interval = ms\<rparr>)"

text \<open>
  \<^verbatim>\<open>game_loop\<close> up to its \<^verbatim>\<open>while running\<close> loop: the session play begins with and the
  save file afterwards. The first draw places the food of the session created at the
  top; a failed load creates the objects again and draws once more.
\<close>

definition game_loop_start ::
  "config \<Rightarrow> (nat \<Rightarrow> int \<times> int) \<Rightarrow> json stored option \<Rightarrow> pyerr + (start \<times> json stored option)" where
  "game_loop_start cfg draws f =
     (case initial_game_speed_ms cfg of
        Inl e \<Rightarrow> Inl e
      | Inr base \<Rightarrow>
          (case load_game f of
             (loaded_state, f', msg) \<Rightarrow>
               if truthy loaded_state then
                 (case load_game_state loaded_state of
                    Some l \<Rightarrow>
                      (case resume cfg base loaded_state l of
                         Inl e \<Rightarrow> Inl e
                       | Inr r \<Rightarrow> Inr (Resumed r, f'))
                  | None \<Rightarrow> Inr (New_Session (new_session cfg base (draws 1)), f'))
               else Inr (New_Session (new_session cfg base (draws 0)), f')))"

text \<open>The buttons of the pause menu; Restart returns \<^verbatim>\<open>game_loop(...)\<close> with the same arguments.\<close>

datatype pause_button = Resume | Restart | Quit

datatype pause_outcome =
  Unpaused | Restarted "pyerr + (start \<times> json stored option)" | To_Menu

definition pause_click ::
  "config \<Rightarrow> (nat \<Rightarrow> int \<times> int) \<Rightarrow> json stored option \<Rightarrow> pause_button \<Rightarrow> pause_outcome" where
  "pause_click cfg draws f b =
     (case b of
        Resume \<Rightarrow> Unpaused
      | Restart \<Rightarrow> Restarted (game_loop_start cfg draws f)
      | Quit \<Rightarrow> To_Menu)"

section \<open>The leaderboard\<close>

text \<open>
  An entry is a dict with the keys \<^verbatim>\<open>name\<close> and \<^verbatim>\<open>score\<close>. The leaderboard file is only
  written by \<^verbatim>\<open>save_leaderboard\<close>, so a file that parses holds a list of entries.
\<close>

record entry =
  e_name :: string
  e_score :: int

definition load_leaderboard :: "entry list stored option \<Rightarrow> entry list" where
  "load_leaderboard f =
     (case f of
        Some (Json l) \<Rightarrow> l
      | Some Malformed \<Rightarrow> []
      | Some Unreadable \<Rightarrow> []
      | None \<Rightarrow> [])"

text \<open>
  \<^verbatim>\<open>save_leaderboard\<close> opens the file for writing and dumps the first five entries;
  every exception is caught and only printed. How the write went is an input: it went
  through, or \<^verbatim>\<open>open\<close> raised and the file is as it was (the path is a directory, no
  permission), or the dump was cut short after \<^verbatim>\<open>open\<close> had truncated the file, which
  leaves a text that is no JSON document.
\<close>

datatype outcome = Written | Not_Opened | Cut_Short

definition save_leaderboard ::
  "entry list \<Rightarrow> outcome \<Rightarrow> entry list stored option \<Rightarrow> entry list stored option" where
  "save_leaderboard leaderboard w f =
     (case w of
        Written \<Rightarrow> Some (Json (take 5 leaderboard))
      | Not_Opened \<Rightarrow> f
      | Cut_Short \<Rightarrow> Some Malformed)"

text \<open>
  \<^verbatim>\<open>re.sub(r"[^a-zA-Z0-9 ]", "", name)\<close> keeps the characters of the class;
  \<^verbatim>\<open>strip()\<close> removes white space at both ends (the ASCII white space of Python).
\<close>

definition allowed :: "char \<Rightarrow> bool" where
  "allowed c =
     (let n = (of_char c :: nat) in
      (97 \<le> n \<and> n \<le> 122) \<or> (65 \<le> n \<and> n \<le> 90) \<or> (48 \<le> n \<and> n \<le> 57) \<or> n = 32)"

definition is_space :: "char \<Rightarrow> bool" where
  "is_space c = (let n = (of_char c :: nat) in (9 \<le> n \<and> n \<le> 13) \<or> (28 \<le> n \<and> n \<le> 32))"

definition strip :: "string \<Rightarrow> string" where
  "strip s = rev (dropWhile is_space (rev (dropWhile is_space s)))"

definition sanitize :: "string \<Rightarrow> string" where
  "sanitize name0 =
     (let name1 = strip (filter allowed name0) in
      if name1 = [] then ''Anonymous'' else name1)"

text \<open>
  \<^verbatim>\<open>leaderboard.sort(key=lambda x: x["score"], reverse=True)\<close>: Python's sort is stable,
  also with \<^verbatim>\<open>reverse=True\<close>; it is the stable insertion sort on the negated score.
\<close>

definition sort_by_score :: "entry list \<Rightarrow> entry list" where
  "sort_by_score leaderboard = sort_key (\<lambda>x. - e_score x) leaderboard"

definition save_score ::
  "string \<Rightarrow> int \<Rightarrow> outcome \<Rightarrow> entry list stored option \<Rightarrow> entry list stored option" where
  "save_score name0 sc w f =
     save_leaderboard
       (sort_by_score (load_leaderboard f @ [\<lparr>e_name = sanitize name0, e_score = sc\<rparr>])) w f"

section \<open>Example inputs\<close>

text \<open>
  An 800 by 600 screen at the speed the menu passes (\<^verbatim>\<open>FPS\<close>), and a few sessions on it:
  a one-segment snake heading right with the food on the next cell, the same with the food
  elsewhere, a snake about to leave the board, and a snake with an active effect about to
  reach a powerup, and a snake whose effect is on its last tick.
\<close>

definition ex_cfg :: config where
  "ex_cfg = \<lparr>width = 800, height = 600, speed = 15, cfg_snake_skin = 0, cfg_fruit_skin = 0\<rparr>"

definition ex_session :: session where
  "ex_session =
     \<lparr>body = [(400, 300)], direction = (20, 0), snake_skin_idx = 0, food_position = (420, 300),
      food_skin_idx = 0, obstacles = [], powerups = [], score = 0, powerup_active = None,
      powerup_timer = 0, move_interval = 66\<rparr>"

definition ex_plain :: session where
  "ex_plain = ex_session\<lparr>food_position := (100, 100)\<rparr>"

definition ex_wall :: session where
  "ex_wall = ex_session\<lparr>body := [(780, 300)]\<rparr>"

definition ex_boosted :: session where
  "ex_boosted =
     ex_plain\<lparr>powerups := [\<lparr>position = (420, 300), ptype_of = slow_down\<rparr>],
              powerup_active := Some speed_boost, powerup_timer := 10, move_interval := 50\<rparr>"

definition ex_active :: session where
  "ex_active = ex_plain\<lparr>powerup_active := Some speed_boost, powerup_timer := 1, move_interval := 50\<rparr>"

definition ex_rand :: rand where
  "ex_rand =
     \<lparr>spawn_roll = True, powerup_draws = (\<lambda>n. (21 + int n, 15)), powerup_choice = speed_boost,
      food_draws = (\<lambda>n. (20 + int n, 15)), obstacle_draws = (\<lambda>n. (1, 1))\<rparr>"

text \<open>
  A board of two cells, with the snake on one and the food on the other: after the move
  the snake fills the board.
\<close>

definition tiny_cfg :: config where
  "tiny_cfg = \<lparr>width = 40, height = 20, speed = 15, cfg_snake_skin = 0, cfg_fruit_skin = 0\<rparr>"

definition tiny_session :: session where
  "tiny_session = ex_session\<lparr>body := [(0, 0)], food_position := (20, 0)\<rparr>"

definition tiny_rand :: rand where
  "tiny_rand =
     \<lparr>spawn_roll = False, powerup_draws = (\<lambda>n. (0, 0)), powerup_choice = speed_boost,
      food_draws = (\<lambda>n. (int (n mod 2), 0)), obstacle_draws = (\<lambda>n. (0, 0))\<rparr>"

text \<open>A snake with no effect about to reach a speed boost.\<close>

definition ex_pickup :: session where
  "ex_pickup = ex_plain\<lparr>powerups := [\<lparr>position = (420, 300), ptype_of = speed_boost\<rparr>]\<rparr>"

text \<open>
  A save document as \<^verbatim>\<open>save_game_state\<close> lays it out: a two-segment snake, one obstacle,
  one powerup on the field, score 7 and a speed boost with 30 ticks left.
\<close>

definition ex_doc :: json where
  "ex_doc =
     JObj [(''snake'', JArr [JArr [JInt 100, JInt 100], JArr [JInt 80, JInt 100]]),
           (''direction'', JArr [JInt 20, JInt 0]),
           (''food_pos'', JArr [JInt 300, JInt 200]),
           (''food_skin_idx'', JInt 1),
           (''obstacles'', JArr [JArr [JInt 200, JInt 200]]),
           (''powerups'', JArr [JObj [(''pos'', JArr [JInt 40, JInt 60]),
                                     (''type'', JStr ''slow_down'')]]),
           (''score'', JInt 7),
           (''powerup_active'', JStr ''speed_boost''),
           (''powerup_timer'', JInt 30),
           (''snake_skin_idx'', JInt 2)]"

definition ex_loaded :: loaded where
  "ex_loaded =
     \<lparr>l_body = [[JInt 100, JInt 100], [JInt 80, JInt 100]],
      l_direction = [JInt 20, JInt 0],
      l_snake_skin = JInt 2,
      l_food_position = [JInt 300, JInt 200],
      l_food_skin = JInt 1,
      l_obstacles = [[JInt 200, JInt 200]],
      l_powerups = [([JInt 40, JInt 60], slow_down)]\<rparr>"

definition ex_board :: "entry list" where
  "ex_board =
     [\<lparr>e_name = ''Ann'', e_score = 9\<rparr>, \<lparr>e_name = ''Bob'', e_score = 7\<rparr>,
      \<lparr>e_name = ''Cy'', e_score = 7\<rparr>, \<lparr>e_name = ''Di'', e_score = 3\<rparr>,
      \<lparr>e_name = ''Ed'', e_score = 1\<rparr>]"

section \<open>Properties\<close>

subsection \<open>The loops and the phases of a tick\<close>

lemma respawn_food_free:
  "respawn_food draws w h occ i = Some p \<Longrightarrow> p \<notin> set occ"
  by (rule respawn_food.raw_induct [where P = "\<lambda>draws w h occ i p. p \<notin> set occ"])
     (auto simp: Let_def split: if_splits)

lemma respawn_food_returns:
  "random_position w h (draws (i + k)) \<notin> set occ \<Longrightarrow> respawn_food draws w h occ i \<noteq> None"
proof (induction k arbitrary: i)
  case 0
  then show ?case by (subst respawn_food.simps) (simp add: Let_def)
next
  case (Suc k)
  from Suc.prems have "respawn_food draws w h occ (Suc i) \<noteq> None"
    by (intro Suc.IH) simp
  then show ?case by (subst respawn_food.simps) (simp add: Let_def)
qed

lemma place_attempt_free:
  "place_attempt draws w h occ n = Some p \<Longrightarrow> p \<notin> set occ"
proof (induction draws w h occ n rule: place_attempt.induct)
  case (1 draws w h occ attempts)
  show ?case
  proof (cases "attempts < 100 \<and> random_position w h (draws attempts) \<in> set occ")
    case True
    with "1.prems" have "place_attempt draws w h occ (attempts + 1) = Some p"
      by (subst (asm) place_attempt.simps) (simp add: Let_def)
    with True show ?thesis by (intro "1.IH") auto
  next
    case False
    with "1.prems" show ?thesis
      by (subst (asm) place_attempt.simps) (auto simp: Let_def split: if_splits)
  qed
qed

lemma find_snoc:
  "find P (xs @ [x]) = (case find P xs of None \<Rightarrow> (if P x then Some x else None) | Some y \<Rightarrow> Some y)"
  by (induction xs) auto

lemma move_nonempty:
  "body s \<noteq> [] \<Longrightarrow> move s = Inr (s\<lparr>body := new_head s # body s\<rparr>)"
  by (cases "body s"; cases "direction s") (auto simp: move_def new_head_def split: prod.splits)

lemma base_interval_pos: "0 < speed cfg \<Longrightarrow> initial_game_speed_ms cfg = Inr (1000 div speed cfg)"
  by (simp add: initial_game_speed_ms_def int_div_def trunc_div_def)

lemma effect_interval_pos: "0 < speed cfg \<Longrightarrow> \<exists>ms. effect_interval cfg t = Inr ms"
  by (cases t) (simp_all add: effect_interval_def int_div_def)

lemma spawn_powerup_fields:
  "body (spawn_powerup cfg orc s) = body s"
  "food_position (spawn_powerup cfg orc s) = food_position s"
  "obstacles (spawn_powerup cfg orc s) = obstacles s"
  "score (spawn_powerup cfg orc s) = score s"
  "powerup_active (spawn_powerup cfg orc s) = powerup_active s"
  "powerup_timer (spawn_powerup cfg orc s) = powerup_timer s"
  "move_interval (spawn_powerup cfg orc s) = move_interval s"
  by (simp_all add: spawn_powerup_def split: option.splits)

lemma spawn_powerup_find:
  assumes "head \<in> set (body s)"
  shows "find (\<lambda>p. position p = head) (powerups (spawn_powerup cfg orc s)) =
         find (\<lambda>p. position p = head) (powerups s)"
proof (cases "spawn_roll orc")
  case False
  then show ?thesis by (simp add: spawn_powerup_def)
next
  case True
  show ?thesis
  proof (cases "place_attempt (powerup_draws orc) (width cfg) (height cfg)
                (body s @ [food_position s] @ obstacles s @ map position (powerups s)) 0")
    case None
    with True show ?thesis by (simp add: spawn_powerup_def)
  next
    case (Some ppos)
    from place_attempt_free [OF Some] assms have "ppos \<noteq> head" by auto
    with True Some show ?thesis
      by (cases "find (\<lambda>p. position p = head) (powerups s)") (auto simp: spawn_powerup_def find_snoc)
  qed
qed

lemma add_obstacle_fields:
  "body (add_obstacle cfg orc s) = body s"
  "food_position (add_obstacle cfg orc s) = food_position s"
  "powerups (add_obstacle cfg orc s) = powerups s"
  "score (add_obstacle cfg orc s) = score s"
  "powerup_active (add_obstacle cfg orc s) = powerup_active s"
  "powerup_timer (add_obstacle cfg orc s) = powerup_timer s"
  "move_interval (add_obstacle cfg orc s) = move_interval s"
  by (simp_all add: add_obstacle_def split: option.splits)

lemma add_obstacle_food:
  "food_position s \<notin> set (obstacles s) \<Longrightarrow>
   food_position s \<notin> set (obstacles (add_obstacle cfg orc s))"
  by (auto simp: add_obstacle_def split: option.splits dest: place_attempt_free)

lemma eat_fields:
  assumes "eat cfg orc s = Some s'"
  shows "body s' = body s" "score s' = score s + 1"
    "powerup_active s' = powerup_active s" "powerup_timer s' = powerup_timer s"
    "move_interval s' = move_interval s"
    "powerups s' = powerups (spawn_powerup cfg orc (s\<lparr>score := score s + 1\<rparr>))"
  using assms
  by (auto simp: eat_def Let_def add_obstacle_fields spawn_powerup_fields split: option.splits)

lemma eat_food_free:
  assumes "eat cfg orc s = Some s'"
  shows "food_position s' \<notin> set (body s') \<union> set (obstacles s') \<union> set (map position (powerups s'))"
proof -
  define s1 where "s1 = spawn_powerup cfg orc (s\<lparr>score := score s + 1\<rparr>)"
  from assms obtain new_pos where
    r: "respawn_food (food_draws orc) (width cfg) (height cfg)
          (body s1 @ obstacles s1 @ map position (powerups s1)) 0 = Some new_pos"
    and s': "s' = add_obstacle cfg orc (s1\<lparr>food_position := new_pos\<rparr>)"
    by (auto simp: eat_def Let_def s1_def split: option.splits)
  from respawn_food_free [OF r]
  have free: "new_pos \<notin> set (body s1)" "new_pos \<notin> set (obstacles s1)"
    "new_pos \<notin> set (map position (powerups s1))"
    by auto
  have "food_position (s1\<lparr>food_position := new_pos\<rparr>)
          \<notin> set (obstacles (add_obstacle cfg orc (s1\<lparr>food_position := new_pos\<rparr>)))"
    by (rule add_obstacle_food) (simp add: free)
  with free show ?thesis
    by (simp add: s' add_obstacle_fields)
qed

lemma eat_returns:
  assumes "random_position (width cfg) (height cfg) (food_draws orc k) \<notin> set (respawn_occupied cfg orc s)"
  shows "eat cfg orc (s\<lparr>body := new_head s # body s\<rparr>) \<noteq> None"
proof -
  define s1 where
    "s1 = spawn_powerup cfg orc (s\<lparr>body := new_head s # body s, score := score s + 1\<rparr>)"
  from assms have "random_position (width cfg) (height cfg) (food_draws orc (0 + k))
      \<notin> set (body s1 @ obstacles s1 @ map position (powerups s1))"
    by (simp add: respawn_occupied_def s1_def Let_def)
  then have "respawn_food (food_draws orc) (width cfg) (height cfg)
      (body s1 @ obstacles s1 @ map position (powerups s1)) 0 \<noteq> None"
    by (rule respawn_food_returns)
  then show ?thesis
    by (auto simp: eat_def Let_def s1_def)
qed

lemma collect_powerup_fields:
  assumes "collect_powerup cfg head s = Inr s'"
  shows "body s' = body s" "score s' = score s" "food_position s' = food_position s"
    "obstacles s' = obstacles s" "set (powerups s') \<subseteq> set (powerups s)"
  using assms
  by (auto simp: collect_powerup_def split: option.splits sum.splits
      dest: set_remove1_subset [THEN subsetD])

lemma collect_powerup_returns:
  "0 < speed cfg \<Longrightarrow> \<exists>s'. collect_powerup cfg head s = Inr s'"
proof (cases "find (\<lambda>p. position p = head) (powerups s)")
  case None
  then show ?thesis by (simp add: collect_powerup_def)
next
  case (Some p)
  assume "0 < speed cfg"
  then obtain ms where "effect_interval cfg (ptype_of p) = Inr ms"
    using effect_interval_pos by blast
  with Some show ?thesis by (simp add: collect_powerup_def)
qed

lemma collect_powerup_none:
  "find (\<lambda>p. position p = head) (powerups s) = None \<Longrightarrow> collect_powerup cfg head s = Inr s"
  by (simp add: collect_powerup_def)

lemma manage_timer_fields:
  "body (manage_timer base s) = body s" "score (manage_timer base s) = score s"
  "food_position (manage_timer base s) = food_position s"
  "obstacles (manage_timer base s) = obstacles s" "powerups (manage_timer base s) = powerups s"
  by (simp_all add: manage_timer_def)

lemma after_food_continue:
  assumes "0 < speed cfg"
  shows "\<exists>s'. after_food cfg base head s = Continue s' \<and> body s' = body s \<and> score s' = score s \<and>
     food_position s' = food_position s \<and> obstacles s' = obstacles s \<and>
     set (powerups s') \<subseteq> set (powerups s)"
proof -
  from collect_powerup_returns [OF assms] obtain s1 where c: "collect_powerup cfg head s = Inr s1"
    by blast
  then show ?thesis
    by (simp add: after_food_def manage_timer_fields collect_powerup_fields [OF c])
qed

lemma move_tick_unfold:
  assumes "body s \<noteq> []" "0 < speed cfg"
  shows "move_tick cfg orc s =
     (let s1 = s\<lparr>body := new_head s # body s\<rparr> in
      if fatal cfg s then Some (Game_Over s1)
      else if new_head s = food_position s then
        (case eat cfg orc s1 of None \<Rightarrow> None
         | Some s2 \<Rightarrow> Some (after_food cfg (1000 div speed cfg) (new_head s) s2))
      else Some (after_food cfg (1000 div speed cfg) (new_head s) (s1\<lparr>body := butlast (body s1)\<rparr>)))"
  using assms
  by (simp add: move_tick_def base_interval_pos move_nonempty fatal_def hits_wall_def shrink_tail_def
      Let_def)


lemma respawn_food_drawn:
  "respawn_food draws w h occ i = Some p \<Longrightarrow> \<exists>k. random_position w h (draws (i + k)) \<notin> set occ"
proof (rule respawn_food.raw_induct
    [where P = "\<lambda>draws w h occ i p. \<exists>k. random_position w h (draws (i + k)) \<notin> set occ"])
  fix f :: "(nat \<Rightarrow> int \<times> int) \<Rightarrow> int \<Rightarrow> int \<Rightarrow> pos list \<Rightarrow> nat \<Rightarrow> pos option"
    and draws w h occ i p
  assume IH: "\<And>draws w h occ i p. f draws w h occ i = Some p \<Longrightarrow>
      \<exists>k. random_position w h (draws (i + k)) \<notin> set occ"
    and eq: "(let new_pos = random_position w h (draws i) in
              if new_pos \<notin> set occ then Some new_pos else f draws w h occ (Suc i)) = Some p"
  show "\<exists>k. random_position w h (draws (i + k)) \<notin> set occ"
  proof (cases "random_position w h (draws i) \<notin> set occ")
    case True
    then have "random_position w h (draws (i + 0)) \<notin> set occ" by simp
    then show ?thesis by blast
  next
    case False
    with eq have "f draws w h occ (Suc i) = Some p" by (simp add: Let_def)
    from IH [OF this] obtain k where "random_position w h (draws (Suc i + k)) \<notin> set occ" by blast
    then have "random_position w h (draws (i + Suc k)) \<notin> set occ" by simp
    then show ?thesis by blast
  qed
qed

lemma ex_session_tick:
  "move_tick ex_cfg ex_rand ex_session =
   Some (Continue
    \<lparr>body = [(420, 300), (400, 300)], direction = (20, 0),
       snake_skin_idx = 0, food_position = (460, 300), food_skin_idx = 0,
       obstacles = [],
       powerups = [\<lparr>position = (440, 300), ptype_of = speed_boost\<rparr>],
       score = 1, powerup_active = None, powerup_timer = 0,
       move_interval = 66\<rparr>)"
  by code_simp

lemma ex_plain_tick:
  "move_tick ex_cfg ex_rand ex_plain = Some (Continue (ex_plain\<lparr>body := [(420, 300)]\<rparr>))"
  by code_simp

lemma ex_active_tick:
  "move_tick ex_cfg ex_rand ex_active =
   Some (Continue (ex_active\<lparr>body := [(420, 300)], powerup_active := None, powerup_timer := 0,
      move_interval := 66\<rparr>))"
  by code_simp

lemma ex_boosted_tick:
  "move_tick ex_cfg ex_rand ex_boosted =
     Some (Continue (ex_boosted\<lparr>body := [(420, 300)], powerups := [],
        powerup_active := Some slow_down, powerup_timer := 74, move_interval := 100\<rparr>))"
  by code_simp

lemma find_position_None:
  "(find (\<lambda>p. position p = head) ps = None) = (head \<notin> set (map position ps))"
  by (auto simp: find_None_iff)

lemma after_food_timer:
  assumes "0 < speed cfg" and "after_food cfg base head s2 = Continue s'"
    and "powerup_active s2 = Some t"
  shows "find (\<lambda>p. position p = head) (powerups s2) = None \<Longrightarrow>
           powerup_timer s' = powerup_timer s2 - 1 \<and>
           (if 0 < powerup_timer s2 - 1
            then powerup_active s' = Some t \<and> move_interval s' = move_interval s2
            else powerup_active s' = None \<and> move_interval s' = base)"
    and "find (\<lambda>p. position p = head) (powerups s2) = Some p \<Longrightarrow>
           powerup_timer s' = FPS * 5 - 1 \<and> powerup_active s' = Some (ptype_of p) \<and>
           effect_interval cfg (ptype_of p) = Inr (move_interval s')"
  using assms(2,3)
  by (auto simp: after_food_def collect_powerup_def manage_timer_def duration_def FPS_def
      split: sum.splits ptype.splits)

lemma tick_powerup_state:
  assumes "body s \<noteq> []" and "0 < speed cfg" and "move_tick cfg orc s = Some (Continue s')"
  shows "\<exists>s2. after_food cfg (1000 div speed cfg) (new_head s) s2 = Continue s' \<and>
     powerup_active s2 = powerup_active s \<and> powerup_timer s2 = powerup_timer s \<and>
     move_interval s2 = move_interval s \<and>
     find (\<lambda>p. position p = new_head s) (powerups s2) =
     find (\<lambda>p. position p = new_head s) (powerups s)"
proof (cases "new_head s = food_position s")
  case False
  with assms(3) show ?thesis
    by (auto simp: move_tick_unfold [OF assms(1,2)] Let_def split: if_splits
        intro!: exI [of _ "s\<lparr>body := butlast (new_head s # body s)\<rparr>"])
next
  case True
  with assms(3) obtain s2 where
    e: "eat cfg orc (s\<lparr>body := new_head s # body s\<rparr>) = Some s2"
    and r: "after_food cfg (1000 div speed cfg) (new_head s) s2 = Continue s'"
    by (auto simp: move_tick_unfold [OF assms(1,2)] Let_def split: if_splits option.splits)
  have "find (\<lambda>p. position p = new_head s) (powerups s2) =
        find (\<lambda>p. position p = new_head s) (powerups s)"
    using spawn_powerup_find [of "new_head s"
        "s\<lparr>body := new_head s # body s, score := score s + 1\<rparr>" cfg orc]
    by (simp add: eat_fields(6) [OF e])
  with r eat_fields(3,4,5) [OF e] show ?thesis
    by (intro exI [of _ s2]) simp
qed

lemma load_game_state_dict:
  assumes "load_game_state doc = Some l"
  shows "\<exists>kvs. doc = JObj kvs \<and> kvs \<noteq> []"
proof (cases doc)
  case (JObj kvs)
  with assms have "map_of kvs ''snake'' \<noteq> None"
    by (auto simp: load_game_state_def getitem_def split: Option.bind_splits)
  then have "kvs \<noteq> []" by auto
  with JObj show ?thesis by simp
qed (use assms in \<open>simp_all add: load_game_state_def getitem_def\<close>)

lemma dict_get_JObj: "\<exists>x. dict_get (JObj kvs) k d = Inr x"
  by (simp add: dict_get_def split: option.splits)

lemma max_one_nonzero: "max 1 (x :: int) \<noteq> 0"
  by simp

lemma reapply_speed_pos:
  "0 < speed cfg \<Longrightarrow>
   reapply_speed cfg (1000 div speed cfg) pa =
     Inr (if pa = JStr ''speed_boost'' then max 50 (1000 div (speed cfg + 10))
          else if pa = JStr ''slow_down'' then 1000 div max 1 (speed cfg - 5)
          else 1000 div speed cfg)"
  by (simp add: reapply_speed_def effect_interval_def int_div_def trunc_div_def max_one_nonzero)

lemma ex_doc_loads: "load_game_state ex_doc = Some ex_loaded"
  by code_simp

lemma strip_subset: "set (strip s) \<subseteq> set s"
proof
  fix x
  assume "x \<in> set (strip s)"
  then have "x \<in> set (dropWhile is_space (rev (dropWhile is_space s)))"
    by (simp add: strip_def)
  then have "x \<in> set (rev (dropWhile is_space s))" by (rule set_dropWhileD)
  then have "x \<in> set (dropWhile is_space s)" by simp
  then show "x \<in> set s" by (rule set_dropWhileD)
qed

lemma strip_ends:
  assumes "strip s \<noteq> []"
  shows "\<not> is_space (hd (strip s)) \<and> \<not> is_space (last (strip s))"
proof -
  let ?a = "dropWhile is_space s"
  let ?b = "dropWhile is_space (rev ?a)"
  from assms have b: "?b \<noteq> []" by (simp add: strip_def)
  have a: "?a \<noteq> []"
  proof
    assume e: "?a = []"
    have "?b = []" unfolding e by simp
    with b show False by simp
  qed
  have "last (strip s) = hd ?b" using b by (simp add: strip_def last_rev)
  moreover have "\<not> is_space (hd ?b)" using b by (rule hd_dropWhile)
  moreover have "hd (strip s) = last ?b" using b by (simp add: strip_def hd_rev)
  moreover have "last ?b = last (rev ?a)"
    using b by (metis last_appendR takeWhile_dropWhile_id)
  moreover have "last (rev ?a) = hd ?a" using a by (simp add: last_rev)
  moreover have "\<not> is_space (hd ?a)" using a by (rule hd_dropWhile)
  ultimately show ?thesis by simp
qed

lemma sorted_by_score:
  "sorted_wrt (\<lambda>a b. e_score b \<le> e_score a) (sort_by_score xs)"
proof -
  have "sorted (map (\<lambda>x. - e_score x) (sort_by_score xs))"
    by (simp add: sort_by_score_def)
  then show ?thesis
    by (simp add: sorted_map sorted_wrt_iff_nth_less)
qed

lemma ex_board_sorted:
  "take 5 (sort_by_score (ex_board @ [\<lparr>e_name = sanitize ''Fay!'', e_score = 7\<rparr>])) =
     [\<lparr>e_name = ''Ann'', e_score = 9\<rparr>, \<lparr>e_name = ''Bob'', e_score = 7\<rparr>,
      \<lparr>e_name = ''Cy'', e_score = 7\<rparr>, \<lparr>e_name = ''Fay'', e_score = 7\<rparr>,
      \<lparr>e_name = ''Di'', e_score = 3\<rparr>]"
  by code_simp

lemma sanitize_examples:
  "sanitize ''Al*ice 99'' = ''Alice 99''" "sanitize '' *!? '' = ''Anonymous''"
  by code_simp+

lemma after_food_collect:
  assumes "0 < speed cfg" and "after_food cfg base head s2 = Continue s'"
    and "find (\<lambda>p. position p = head) (powerups s2) = Some p"
  shows "powerup_timer s' = FPS * 5 - 1 \<and> powerup_active s' = Some (ptype_of p) \<and>
         effect_interval cfg (ptype_of p) = Inr (move_interval s')"
  using assms(2,3)
  by (auto simp: after_food_def collect_powerup_def manage_timer_def duration_def FPS_def
      split: sum.splits ptype.splits)

lemma full_board_hang:
  assumes "body s \<noteq> []" and "0 < speed cfg" and "\<not> fatal cfg s"
    and "new_head s = food_position s"
    and "\<And>n. random_position (width cfg) (height cfg) (food_draws orc n) \<in> set (new_head s # body s)"
  shows "move_tick cfg orc s = None"
proof (rule ccontr)
  assume "move_tick cfg orc s \<noteq> None"
  with assms(3,4) obtain s2 where "eat cfg orc (s\<lparr>body := new_head s # body s\<rparr>) = Some s2"
    by (auto simp: move_tick_unfold [OF assms(1,2)] Let_def split: option.splits)
  then obtain p where "respawn_food (food_draws orc) (width cfg) (height cfg)
      (respawn_occupied cfg orc s) 0 = Some p"
    by (auto simp: eat_def respawn_occupied_def Let_def split: option.splits)
  from respawn_food_drawn [OF this] obtain k where
    "random_position (width cfg) (height cfg) (food_draws orc k) \<notin> set (respawn_occupied cfg orc s)"
    by auto
  moreover have "set (new_head s # body s) \<subseteq> set (respawn_occupied cfg orc s)"
    by (auto simp: respawn_occupied_def Let_def spawn_powerup_fields)
  ultimately show False using assms(5) [of k] by blast
qed

lemma tiny_draws:
  "in_range (width tiny_cfg) (height tiny_cfg) r \<Longrightarrow>
   random_position (width tiny_cfg) (height tiny_cfg) r \<in> {(0, 0), (20, 0)}"
proof -
  assume "in_range (width tiny_cfg) (height tiny_cfg) r"
  then have "(fst r = 0 \<or> fst r = 1) \<and> snd r = 0"
    by (auto simp: in_range_def tiny_cfg_def CELL_SIZE_def)
  then show ?thesis
    by (cases r) (auto simp: random_position_def CELL_SIZE_def)
qed

lemma tiny_board_hangs:
  assumes "\<And>n. in_range (width tiny_cfg) (height tiny_cfg) (food_draws orc n)"
  shows "move_tick tiny_cfg orc tiny_session = None"
proof (rule full_board_hang)
  show "body tiny_session \<noteq> []" "0 < speed tiny_cfg" "\<not> fatal tiny_cfg tiny_session"
    "new_head tiny_session = food_position tiny_session"
    by (simp_all add: tiny_session_def ex_session_def tiny_cfg_def fatal_def hits_wall_def
        new_head_def)
next
  fix n
  have "set (new_head tiny_session # body tiny_session) = {(0, 0), (20, 0)}"
    by (auto simp: tiny_session_def ex_session_def new_head_def)
  with tiny_draws [OF assms [of n]]
  show "random_position (width tiny_cfg) (height tiny_cfg) (food_draws orc n)
      \<in> set (new_head tiny_session # body tiny_session)"
    by simp
qed

lemma tiny_rand_in_range: "in_range (width tiny_cfg) (height tiny_cfg) (food_draws tiny_rand n)"
  by (simp add: in_range_def tiny_cfg_def tiny_rand_def CELL_SIZE_def)

lemma ex_pickup_tick:
  "move_tick ex_cfg ex_rand ex_pickup =
     Some (Continue (ex_pickup\<lparr>body := [(420, 300)], powerups := [],
        powerup_active := Some speed_boost, powerup_timer := 74, move_interval := 50\<rparr>))"
  by code_simp

lemma start_no_save:
  "0 < speed cfg \<Longrightarrow>
   game_loop_start cfg draws None =
     Inr (New_Session (new_session cfg (1000 div speed cfg) (draws 0)), None)"
  by (simp add: game_loop_start_def base_interval_pos load_game_def truthy_def)

lemma effect_interval_value:
  "0 < speed cfg \<Longrightarrow>
   effect_interval cfg t =
     Inr (case t of
            speed_boost \<Rightarrow> max 50 (1000 div (speed cfg + 10))
          | slow_down \<Rightarrow> 1000 div max 1 (speed cfg - 5))"
  by (cases t) (simp_all add: effect_interval_def int_div_def trunc_div_def)

lemma collected_interval:
  assumes "0 < speed cfg" and "body s \<noteq> []" and "move_tick cfg orc s = Some (Continue s')"
    and "find (\<lambda>p. position p = new_head s) (powerups s) = Some p"
  shows "move_interval s' =
     (case ptype_of p of
        speed_boost \<Rightarrow> max 50 (1000 div (speed cfg + 10))
      | slow_down \<Rightarrow> 1000 div max 1 (speed cfg - 5))"
proof -
  from tick_powerup_state [OF assms(2,1,3)] obtain s2 where
    r: "after_food cfg (1000 div speed cfg) (new_head s) s2 = Continue s'"
    and f: "find (\<lambda>p. position p = new_head s) (powerups s2) =
            find (\<lambda>p. position p = new_head s) (powerups s)"
    by auto
  from f assms(4) have "find (\<lambda>p. position p = new_head s) (powerups s2) = Some p" by simp
  from after_food_collect [OF assms(1) r this]
  have "effect_interval cfg (ptype_of p) = Inr (move_interval s')" by simp
  with effect_interval_value [OF assms(1), of "ptype_of p"] show ?thesis
    by simp
qed

lemma all_some_map:
  "(\<And>x. x \<in> set xs \<Longrightarrow> f x = Some (g x)) \<Longrightarrow> all_some (map f xs) = Some (map g xs)"
  by (induction xs) simp_all

lemma tuples_pos_json: "tuples (JArr (map pos_json ps)) = Some (map pos_tuple ps)"
  by (simp add: tuples_def py_iter_def pos_json_def all_some_map [where g = pos_tuple])

lemma ptype_lookup_name: "ptype_lookup (JStr (ptype_name t)) = Some t"
  by (cases t) (simp_all add: ptype_lookup_def ptype_name_def)

lemma powerup_of_saved:
  "powerup_of (JObj [(''pos'', pos_json (position p)), (''type'', JStr (ptype_name (ptype_of p)))]) =
     Some (pos_tuple (position p), ptype_of p)"
  by (simp add: powerup_of_def getitem_def py_iter_def pos_json_def ptype_lookup_name)

lemma py_iter_pos_json: "py_iter (pos_json p) = Some (pos_tuple p)"
  by (simp add: py_iter_def pos_json_def)

lemma powerups_saved:
  "all_some (map (powerup_of \<circ>
      (\<lambda>p. JObj [(''pos'', pos_json (position p)), (''type'', JStr (ptype_name (ptype_of p)))])) ps) =
   Some (map (\<lambda>p. (pos_tuple (position p), ptype_of p)) ps)"
  by (induction ps) (simp_all add: powerup_of_saved)

lemma load_game_state_saved: "load_game_state (save_game_state s) = Some (loaded_of s)"
  by (simp add: load_game_state_def save_game_state_def getitem_def tuples_pos_json
      py_iter_pos_json powerups_saved loaded_of_def)
     (simp add: py_iter_def powerups_saved)

lemma load_game_state_fields:
  assumes "load_game_state doc = Some l"
  shows "\<exists>sv dv fv ov pv ps.
     getitem doc ''snake'' = Some sv \<and> tuples sv = Some (l_body l) \<and>
     getitem doc ''direction'' = Some dv \<and> py_iter dv = Some (l_direction l) \<and>
     getitem doc ''food_pos'' = Some fv \<and> py_iter fv = Some (l_food_position l) \<and>
     getitem doc ''obstacles'' = Some ov \<and> tuples ov = Some (l_obstacles l) \<and>
     getitem doc ''powerups'' = Some pv \<and> py_iter pv = Some ps \<and>
     all_some (map powerup_of ps) = Some (l_powerups l) \<and>
     l_snake_skin l = (case getitem doc ''snake_skin_idx'' of None \<Rightarrow> JInt 0 | Some x \<Rightarrow> x) \<and>
     l_food_skin l = (case getitem doc ''food_skin_idx'' of None \<Rightarrow> JInt 0 | Some x \<Rightarrow> x)"
  using assms
  by (auto simp: load_game_state_def split: Option.bind_splits)

lemma ex_al_sorted:
  "take 5 (sort_by_score (load_leaderboard (Some Unreadable) @
      [\<lparr>e_name = sanitize ''Al'', e_score = 3\<rparr>])) = [\<lparr>e_name = ''Al'', e_score = 3\<rparr>]"
  by code_simp

subsection \<open>The claims\<close>

text \<open>
  C1. On a move tick of a running session (a snake with a body, a positive speed): when
  the new head is outside the board, or on a body segment, or on an obstacle, the tick is
  the game over, whatever the random draws, and the state it ends with is the state before
  the tick with only the new head put in front of the body: score, food, powerups, timer
  and interval are untouched. When none of the three holds the tick is no game over.
\<close>

theorem fatal_tick_ends_session:
  assumes "body s \<noteq> []" and "0 < speed cfg"
  shows "(fatal cfg s \<longrightarrow> move_tick cfg orc s = Some (Game_Over (s\<lparr>body := new_head s # body s\<rparr>))) \<and>
         (\<not> fatal cfg s \<longrightarrow> (\<forall>r. move_tick cfg orc s \<noteq> Some (Game_Over r)))"
proof (intro conjI impI allI)
  assume "fatal cfg s"
  then show "move_tick cfg orc s = Some (Game_Over (s\<lparr>body := new_head s # body s\<rparr>))"
    by (simp add: move_tick_unfold [OF assms] Let_def)
next
  fix r
  assume nf: "\<not> fatal cfg s"
  obtain a where a: "after_food cfg (1000 div speed cfg) (new_head s)
      (s\<lparr>body := butlast (new_head s # body s)\<rparr>) = Continue a"
    using after_food_continue [OF assms(2)] by blast
  show "move_tick cfg orc s \<noteq> Some (Game_Over r)"
  proof (cases "new_head s = food_position s")
    case False
    with nf a show ?thesis
      by (simp add: move_tick_unfold [OF assms] Let_def)
  next
    case True
    show ?thesis
    proof (cases "eat cfg orc (s\<lparr>body := new_head s # body s\<rparr>)")
      case None
      with nf True show ?thesis by (simp add: move_tick_unfold [OF assms] Let_def)
    next
      case (Some s2)
      obtain b where "after_food cfg (1000 div speed cfg) (new_head s) s2 = Continue b"
        using after_food_continue [OF assms(2)] by blast
      with nf True Some show ?thesis by (simp add: move_tick_unfold [OF assms] Let_def)
    qed
  qed
qed

theorem fatal_tick_ends_session_witness:
  "body ex_wall \<noteq> [] \<and> 0 < speed ex_cfg \<and> fatal ex_cfg ex_wall \<and>
   move_tick ex_cfg ex_rand ex_wall = Some (Game_Over (ex_wall\<lparr>body := [(800, 300), (780, 300)]\<rparr>)) \<and>
   body ex_plain \<noteq> [] \<and> \<not> fatal ex_cfg ex_plain \<and>
   move_tick ex_cfg ex_rand ex_plain \<noteq> Some (Game_Over ex_plain)"
  using fatal_tick_ends_session [of ex_wall ex_cfg ex_rand]
    fatal_tick_ends_session [of ex_plain ex_cfg ex_rand]
  by (simp add: ex_wall_def ex_plain_def ex_session_def ex_cfg_def fatal_def hits_wall_def new_head_def)

text \<open>
  C2, as the code has it. On a move tick that is not fatal: when the new head is on the
  food, every result of the tick has a body one longer and a score one higher, and the
  food on a new cell that holds no snake segment, no obstacle and no powerup; the tick
  returns exactly when the food loop draws a free cell. When the new head is not on the
  food, the tick returns with the tail removed, so the length, the score and the food
  are as before.
\<close>

theorem growth_on_food_else_length_kept:
  assumes "body s \<noteq> []" and "0 < speed cfg" and "\<not> fatal cfg s"
  shows "(new_head s = food_position s \<longrightarrow>
            (\<forall>r. move_tick cfg orc s = Some r \<longrightarrow>
               (\<exists>s'. r = Continue s' \<and> length (body s') = length (body s) + 1 \<and>
                     score s' = score s + 1 \<and> food_position s' \<noteq> food_position s \<and>
                     food_position s' \<notin>
                       set (body s') \<union> set (obstacles s') \<union> set (map position (powerups s')))) \<and>
            ((move_tick cfg orc s \<noteq> None) =
             (\<exists>k. random_position (width cfg) (height cfg) (food_draws orc k)
                    \<notin> set (respawn_occupied cfg orc s)))) \<and>
         (new_head s \<noteq> food_position s \<longrightarrow>
            (\<exists>s'. move_tick cfg orc s = Some (Continue s') \<and>
                  body s' = butlast (new_head s # body s) \<and> length (body s') = length (body s) \<and>
                  score s' = score s \<and> food_position s' = food_position s))"
proof (intro conjI impI allI)
  fix r
  assume food: "new_head s = food_position s" and r: "move_tick cfg orc s = Some r"
  from r food assms(3) obtain s2 where
    e: "eat cfg orc (s\<lparr>body := new_head s # body s\<rparr>) = Some s2"
    and r2: "r = after_food cfg (1000 div speed cfg) (new_head s) s2"
    by (auto simp: move_tick_unfold [OF assms(1,2)] Let_def split: option.splits)
  from after_food_continue [OF assms(2), of "1000 div speed cfg" "new_head s" s2]
  obtain s' where s': "after_food cfg (1000 div speed cfg) (new_head s) s2 = Continue s'"
    "body s' = body s2" "score s' = score s2" "food_position s' = food_position s2"
    "obstacles s' = obstacles s2" "set (powerups s') \<subseteq> set (powerups s2)"
    by blast
  have b2: "body s2 = new_head s # body s" and sc2: "score s2 = score s + 1"
    using eat_fields(1,2) [OF e] by simp_all
  from eat_food_free [OF e]
  have free: "food_position s2 \<notin> set (body s2)" "food_position s2 \<notin> set (obstacles s2)"
    "food_position s2 \<notin> position ` set (powerups s2)"
    by auto
  from free(1) b2 food have "food_position s2 \<noteq> food_position s" by auto
  moreover from free(3) s'(6) have "food_position s2 \<notin> position ` set (powerups s')" by blast
  ultimately show "\<exists>s'. r = Continue s' \<and> length (body s') = length (body s) + 1 \<and>
      score s' = score s + 1 \<and> food_position s' \<noteq> food_position s \<and>
      food_position s' \<notin> set (body s') \<union> set (obstacles s') \<union> set (map position (powerups s'))"
    using r2 s' b2 sc2 free by auto
next
  assume food: "new_head s = food_position s"
  show "(move_tick cfg orc s \<noteq> None) =
      (\<exists>k. random_position (width cfg) (height cfg) (food_draws orc k)
             \<notin> set (respawn_occupied cfg orc s))"
  proof
    assume "\<exists>k. random_position (width cfg) (height cfg) (food_draws orc k)
        \<notin> set (respawn_occupied cfg orc s)"
    then obtain k where "random_position (width cfg) (height cfg) (food_draws orc k)
        \<notin> set (respawn_occupied cfg orc s)" by blast
    from eat_returns [OF this] food assms(3) show "move_tick cfg orc s \<noteq> None"
      by (auto simp: move_tick_unfold [OF assms(1,2)] Let_def split: option.splits)
  next
    assume "move_tick cfg orc s \<noteq> None"
    with food assms(3) obtain s2 where "eat cfg orc (s\<lparr>body := new_head s # body s\<rparr>) = Some s2"
      by (auto simp: move_tick_unfold [OF assms(1,2)] Let_def split: option.splits)
    then obtain p where "respawn_food (food_draws orc) (width cfg) (height cfg)
        (respawn_occupied cfg orc s) 0 = Some p"
      by (auto simp: eat_def respawn_occupied_def Let_def split: option.splits)
    from respawn_food_drawn [OF this]
    show "\<exists>k. random_position (width cfg) (height cfg) (food_draws orc k)
        \<notin> set (respawn_occupied cfg orc s)"
      by simp
  qed
next
  assume nofood: "new_head s \<noteq> food_position s"
  from after_food_continue [OF assms(2), of "1000 div speed cfg" "new_head s"
      "s\<lparr>body := butlast (new_head s # body s)\<rparr>"]
  obtain s' where "after_food cfg (1000 div speed cfg) (new_head s)
      (s\<lparr>body := butlast (new_head s # body s)\<rparr>) = Continue s'"
    "body s' = butlast (new_head s # body s)" "score s' = score s"
    "food_position s' = food_position s"
    by auto
  with nofood assms(3) show "\<exists>s'. move_tick cfg orc s = Some (Continue s') \<and>
      body s' = butlast (new_head s # body s) \<and> length (body s') = length (body s) \<and>
      score s' = score s \<and> food_position s' = food_position s"
    by (simp add: move_tick_unfold [OF assms(1,2)] Let_def)
qed

theorem growth_on_food_else_length_kept_witness:
  "body ex_session \<noteq> [] \<and> 0 < speed ex_cfg \<and> \<not> fatal ex_cfg ex_session \<and>
   new_head ex_session = food_position ex_session \<and>
   (\<exists>s'. move_tick ex_cfg ex_rand ex_session = Some (Continue s') \<and>
      length (body s') = length (body ex_session) + 1 \<and> score s' = score ex_session + 1 \<and>
      food_position s' \<noteq> food_position ex_session \<and>
      food_position s' \<notin> set (body s') \<union> set (obstacles s') \<union> set (map position (powerups s'))) \<and>
   (\<exists>k. random_position (width ex_cfg) (height ex_cfg) (food_draws ex_rand k)
      \<notin> set (respawn_occupied ex_cfg ex_rand ex_session)) \<and>
   body ex_plain \<noteq> [] \<and> \<not> fatal ex_cfg ex_plain \<and>
   new_head ex_plain \<noteq> food_position ex_plain \<and>
   (\<exists>s'. move_tick ex_cfg ex_rand ex_plain = Some (Continue s') \<and>
      body s' = [(420, 300)] \<and> length (body s') = length (body ex_plain) \<and>
      score s' = score ex_plain \<and> food_position s' = food_position ex_plain)"
proof -
  have h: "body ex_session \<noteq> []" "0 < speed ex_cfg" "\<not> fatal ex_cfg ex_session"
    "new_head ex_session = food_position ex_session"
    by (simp_all add: ex_session_def ex_cfg_def fatal_def hits_wall_def new_head_def)
  have g: "body ex_plain \<noteq> []" "\<not> fatal ex_cfg ex_plain"
    "new_head ex_plain \<noteq> food_position ex_plain"
    "butlast (new_head ex_plain # body ex_plain) = [(420, 300)]"
    by (simp_all add: ex_plain_def ex_session_def ex_cfg_def fatal_def hits_wall_def new_head_def)
  from growth_on_food_else_length_kept [OF h(1,2,3), of ex_rand] h(4) ex_session_tick
  have a: "\<exists>s'. move_tick ex_cfg ex_rand ex_session = Some (Continue s') \<and>
      length (body s') = length (body ex_session) + 1 \<and> score s' = score ex_session + 1 \<and>
      food_position s' \<noteq> food_position ex_session \<and>
      food_position s' \<notin> set (body s') \<union> set (obstacles s') \<union> set (map position (powerups s'))"
    and b: "\<exists>k. random_position (width ex_cfg) (height ex_cfg) (food_draws ex_rand k)
      \<notin> set (respawn_occupied ex_cfg ex_rand ex_session)"
    by auto
  from growth_on_food_else_length_kept [OF g(1) h(2) g(2), of ex_rand] g(3,4)
  have c: "\<exists>s'. move_tick ex_cfg ex_rand ex_plain = Some (Continue s') \<and>
      body s' = [(420, 300)] \<and> length (body s') = length (body ex_plain) \<and>
      score s' = score ex_plain \<and> food_position s' = food_position ex_plain"
    by auto
  from h g a b c show ?thesis by blast
qed

text \<open>
  The claim as written fails when the moved snake fills the board: on the board of two
  cells the head reaches the food, the tick is not fatal, both draws that \<^verbatim>\<open>randint\<close>
  can return are occupied, and the food loop, which has no cap, never returns.
\<close>

theorem full_board_hang_counterexample:
  "body tiny_session \<noteq> [] \<and> 0 < speed tiny_cfg \<and> \<not> fatal tiny_cfg tiny_session \<and>
   new_head tiny_session = food_position tiny_session \<and>
   in_range (width tiny_cfg) (height tiny_cfg) (food_draws tiny_rand 0) \<and>
   in_range (width tiny_cfg) (height tiny_cfg) (food_draws tiny_rand 1) \<and>
   move_tick tiny_cfg tiny_rand tiny_session = None"
  using tiny_board_hangs [of tiny_rand] tiny_rand_in_range
  by (simp add: tiny_session_def ex_session_def tiny_cfg_def fatal_def hits_wall_def new_head_def)

text \<open>
  C3. The food of a new session is placed by one unchecked draw, so it can lie on the
  snake: on the 800 by 600 board the draw (20, 15), which \<^verbatim>\<open>randint\<close> can return, puts
  the first food on the cell of the one-segment snake. (The respawn of the food on an
  eat tick does avoid snake, obstacles and powerups; that is part of C2.)
\<close>

theorem initial_food_on_snake:
  "in_range (width ex_cfg) (height ex_cfg) (20, 15) \<and>
   game_loop_start ex_cfg (\<lambda>n. (20, 15)) None =
     Inr (New_Session (new_session ex_cfg 66 (20, 15)), None) \<and>
   body (new_session ex_cfg 66 (20, 15)) = [(400, 300)] \<and>
   food_position (new_session ex_cfg 66 (20, 15)) = (400, 300)"
  by (simp add: in_range_def ex_cfg_def CELL_SIZE_def game_loop_start_def initial_game_speed_ms_def
      int_div_def trunc_div_def load_game_def truthy_def new_session_def start_pos_def
      random_position_def)



text \<open>
  C5, as the code has it. On a move tick that continues the session, with an effect
  active before the tick: when the new head is on no powerup, the timer goes down by
  exactly 1, and when that leaves it at 0 or below the effect is cleared and the interval
  is the base interval again, otherwise effect and interval stay. When the new head is on
  a powerup, the timer is instead set to that powerup's duration less 1, and the effect
  and the interval are that powerup's.
\<close>

theorem timer_counts_down:
  assumes "body s \<noteq> []" and "0 < speed cfg" and "move_tick cfg orc s = Some (Continue s')"
    and "powerup_active s = Some t"
  shows "(new_head s \<notin> set (map position (powerups s)) \<longrightarrow>
            powerup_timer s' = powerup_timer s - 1 \<and>
            (if 0 < powerup_timer s - 1
             then powerup_active s' = Some t \<and> move_interval s' = move_interval s
             else powerup_active s' = None \<and>
                  initial_game_speed_ms cfg = Inr (move_interval s'))) \<and>
         (new_head s \<in> set (map position (powerups s)) \<longrightarrow>
            powerup_timer s' = FPS * 5 - 1 \<and>
            (\<exists>p \<in> set (powerups s). position p = new_head s \<and>
               powerup_active s' = Some (ptype_of p) \<and>
               effect_interval cfg (ptype_of p) = Inr (move_interval s')))"
proof -
  from tick_powerup_state [OF assms(1,2,3)] obtain s2 where
    r: "after_food cfg (1000 div speed cfg) (new_head s) s2 = Continue s'"
    and a: "powerup_active s2 = Some t" and keep: "powerup_timer s2 = powerup_timer s"
      "move_interval s2 = move_interval s"
    and f: "find (\<lambda>p. position p = new_head s) (powerups s2) =
            find (\<lambda>p. position p = new_head s) (powerups s)"
    using assms(4) by auto
  show ?thesis
  proof (intro conjI impI)
    assume "new_head s \<notin> set (map position (powerups s))"
    then have "find (\<lambda>p. position p = new_head s) (powerups s2) = None"
      by (simp add: f find_position_None)
    from after_food_timer(1) [OF assms(2) r a this] keep
    show "powerup_timer s' = powerup_timer s - 1"
      and "if 0 < powerup_timer s - 1
           then powerup_active s' = Some t \<and> move_interval s' = move_interval s
           else powerup_active s' = None \<and> initial_game_speed_ms cfg = Inr (move_interval s')"
      by (simp_all add: base_interval_pos [OF assms(2)])
  next
    assume "new_head s \<in> set (map position (powerups s))"
    then obtain p where p: "find (\<lambda>p. position p = new_head s) (powerups s) = Some p"
      by (cases "find (\<lambda>p. position p = new_head s) (powerups s)")
         (simp_all add: find_position_None)
    then have m: "p \<in> set (powerups s)" "position p = new_head s"
      by (auto simp: find_Some_iff)
    from p f have "find (\<lambda>p. position p = new_head s) (powerups s2) = Some p" by simp
    from after_food_timer(2) [OF assms(2) r a this] m
    show "powerup_timer s' = FPS * 5 - 1"
      and "\<exists>p \<in> set (powerups s). position p = new_head s \<and>
             powerup_active s' = Some (ptype_of p) \<and>
             effect_interval cfg (ptype_of p) = Inr (move_interval s')"
      by auto
  qed
qed

theorem timer_counts_down_witness:
  "body ex_active \<noteq> [] \<and> 0 < speed ex_cfg \<and>
   powerup_active ex_active = Some speed_boost \<and>
   new_head ex_active \<notin> set (map position (powerups ex_active)) \<and>
   move_tick ex_cfg ex_rand ex_active =
     Some (Continue (ex_active\<lparr>body := [(420, 300)], powerup_active := None,
        powerup_timer := 0, move_interval := 66\<rparr>)) \<and>
   initial_game_speed_ms ex_cfg = Inr 66 \<and>
   body ex_boosted \<noteq> [] \<and> powerup_active ex_boosted = Some speed_boost \<and>
   new_head ex_boosted \<in> set (map position (powerups ex_boosted)) \<and>
   powerup_timer (ex_boosted\<lparr>body := [(420, 300)], powerups := [],
        powerup_active := Some slow_down, powerup_timer := 74, move_interval := 100\<rparr>)
     = FPS * 5 - 1"
proof -
  have h: "body ex_active \<noteq> []" "0 < speed ex_cfg" "powerup_active ex_active = Some speed_boost"
    "new_head ex_active \<notin> set (map position (powerups ex_active))"
    "body ex_boosted \<noteq> []" "powerup_active ex_boosted = Some speed_boost"
    "new_head ex_boosted \<in> set (map position (powerups ex_boosted))"
    by (simp_all add: ex_active_def ex_boosted_def ex_plain_def ex_session_def ex_cfg_def
        new_head_def)
  from timer_counts_down [OF h(1,2) ex_active_tick h(3)] h(4)
  have a: "initial_game_speed_ms ex_cfg = Inr 66"
    by (simp add: ex_active_def)
  from timer_counts_down [OF h(5,2) ex_boosted_tick h(6)] h(7)
  have b: "powerup_timer (ex_boosted\<lparr>body := [(420, 300)], powerups := [],
        powerup_active := Some slow_down, powerup_timer := 74, move_interval := 100\<rparr>)
     = FPS * 5 - 1"
    by blast
  from h a b ex_active_tick show ?thesis by blast
qed

text \<open>
  The claim as written fails on a tick that collects a powerup: the effect was active
  with 10 ticks left, and after the tick 74 are left.
\<close>

theorem timer_reset_on_collection_counterexample:
  "powerup_active ex_boosted = Some speed_boost \<and> powerup_timer ex_boosted = 10 \<and>
   move_tick ex_cfg ex_rand ex_boosted =
     Some (Continue (ex_boosted\<lparr>body := [(420, 300)], powerups := [],
        powerup_active := Some slow_down, powerup_timer := 74, move_interval := 100\<rparr>)) \<and>
   powerup_timer (ex_boosted\<lparr>body := [(420, 300)], powerups := [],
        powerup_active := Some slow_down, powerup_timer := 74, move_interval := 100\<rparr>)
     \<noteq> powerup_timer ex_boosted - 1"
  using ex_boosted_tick
  by (simp add: ex_boosted_def)

text \<open>
  C6. For a positive number of ticks per second: the base interval, which a session
  without a save starts with, is the integer quotient \<open>1000 div speed\<close>; the interval a
  speed boost stands for is \<open>1000 div (speed + 10)\<close> raised to at least 50, the one a
  slow down stands for is \<open>1000 div max 1 (speed - 5)\<close>; and after every move tick on
  which the new head lands on a powerup, the interval of the move timer is the one of
  that powerup's type.
\<close>

theorem tick_intervals:
  assumes "0 < speed cfg"
  shows "initial_game_speed_ms cfg = Inr (1000 div speed cfg) \<and>
     effect_interval cfg speed_boost = Inr (max 50 (1000 div (speed cfg + 10))) \<and>
     effect_interval cfg slow_down = Inr (1000 div max 1 (speed cfg - 5)) \<and>
     (\<forall>draws. \<exists>s0. game_loop_start cfg draws None = Inr (New_Session s0, None) \<and>
        move_interval s0 = 1000 div speed cfg) \<and>
     (\<forall>orc s s' p.
        body s \<noteq> [] \<and> move_tick cfg orc s = Some (Continue s') \<and>
        find (\<lambda>p. position p = new_head s) (powerups s) = Some p \<longrightarrow>
        move_interval s' =
          (case ptype_of p of
             speed_boost \<Rightarrow> max 50 (1000 div (speed cfg + 10))
           | slow_down \<Rightarrow> 1000 div max 1 (speed cfg - 5)))"
proof (intro conjI allI impI)
  show "initial_game_speed_ms cfg = Inr (1000 div speed cfg)"
    using assms by (rule base_interval_pos)
  show "effect_interval cfg speed_boost = Inr (max 50 (1000 div (speed cfg + 10)))"
    using assms by (simp add: effect_interval_def int_div_def trunc_div_def)
  show "effect_interval cfg slow_down = Inr (1000 div max 1 (speed cfg - 5))"
    using assms by (simp add: effect_interval_def int_div_def trunc_div_def)
next
  fix draws
  show "\<exists>s0. game_loop_start cfg draws None = Inr (New_Session s0, None) \<and>
        move_interval s0 = 1000 div speed cfg"
    using start_no_save [OF assms, of draws] by (simp add: new_session_def)
next
  fix orc s s' p
  assume "body s \<noteq> [] \<and> move_tick cfg orc s = Some (Continue s') \<and>
        find (\<lambda>p. position p = new_head s) (powerups s) = Some p"
  then show "move_interval s' =
          (case ptype_of p of
             speed_boost \<Rightarrow> max 50 (1000 div (speed cfg + 10))
           | slow_down \<Rightarrow> 1000 div max 1 (speed cfg - 5))"
    using collected_interval [OF assms] by blast
qed

theorem tick_intervals_witness:
  "0 < speed ex_cfg \<and>
   initial_game_speed_ms ex_cfg = Inr 66 \<and>
   effect_interval ex_cfg speed_boost = Inr 50 \<and>
   effect_interval ex_cfg slow_down = Inr 100 \<and>
   body ex_pickup \<noteq> [] \<and>
   find (\<lambda>p. position p = new_head ex_pickup) (powerups ex_pickup) =
     Some \<lparr>position = (420, 300), ptype_of = speed_boost\<rparr> \<and>
   move_tick ex_cfg ex_rand ex_pickup =
     Some (Continue (ex_pickup\<lparr>body := [(420, 300)], powerups := [],
        powerup_active := Some speed_boost, powerup_timer := 74, move_interval := 50\<rparr>)) \<and>
   body ex_boosted \<noteq> [] \<and>
   find (\<lambda>p. position p = new_head ex_boosted) (powerups ex_boosted) =
     Some \<lparr>position = (420, 300), ptype_of = slow_down\<rparr> \<and>
   move_tick ex_cfg ex_rand ex_boosted =
     Some (Continue (ex_boosted\<lparr>body := [(420, 300)], powerups := [],
        powerup_active := Some slow_down, powerup_timer := 74, move_interval := 100\<rparr>))"
proof -
  have s: "0 < speed ex_cfg" by (simp add: ex_cfg_def)
  have h: "body ex_pickup \<noteq> []"
    "find (\<lambda>p. position p = new_head ex_pickup) (powerups ex_pickup) =
       Some \<lparr>position = (420, 300), ptype_of = speed_boost\<rparr>"
    "body ex_boosted \<noteq> []"
    "find (\<lambda>p. position p = new_head ex_boosted) (powerups ex_boosted) =
       Some \<lparr>position = (420, 300), ptype_of = slow_down\<rparr>"
    by (simp_all add: ex_pickup_def ex_boosted_def ex_plain_def ex_session_def new_head_def)
  from tick_intervals [OF s]
  have v: "initial_game_speed_ms ex_cfg = Inr 66" "effect_interval ex_cfg speed_boost = Inr 50"
    "effect_interval ex_cfg slow_down = Inr 100"
    by (simp_all add: ex_cfg_def)
  from s v h ex_pickup_tick ex_boosted_tick show ?thesis by blast
qed

text \<open>
  C7. For every current direction \<open>c\<close> and every key bound to a requested direction
  \<open>r\<close>: the exact reverse of \<open>c\<close> leaves the direction as it is, every other request sets
  it to the requested unit vector scaled by the cell size.
\<close>

theorem reverse_rejected_others_accepted:
  "k \<in> set (keys_of r) \<Longrightarrow>
     direction_after k (vec c) = Some (if r = reverse c then vec c else vec r)"
  by (cases r; cases c)
     (auto simp: keys_of_def vec_def reverse_def direction_after_def dispatch_def CELL_SIZE_def)

theorem reverse_rejected_others_accepted_witness:
  "K_a \<in> set (keys_of Left) \<and> direction_after K_a (vec Right) = Some (vec Right) \<and>
   K_w \<in> set (keys_of Up) \<and> direction_after K_w (vec Right) = Some (vec Up)"
  using reverse_rejected_others_accepted [of K_a Left Right]
    reverse_rejected_others_accepted [of K_w Up Right]
  by (simp add: keys_of_def reverse_def)

text \<open>
  C8, as the code has it. When the write goes through, recording a score and loading the
  leaderboard again gives the first five entries of the old entries followed by the new
  one, sorted by descending score; that list is sorted and has at most five entries.
  When the file cannot be opened for writing the error is only printed and the file is
  as it was; when the write is cut short the file is left unreadable as JSON and loads
  as the empty leaderboard. The sort is a stable rearrangement (entries of equal score
  keep their order); the stored name holds only letters, digits and spaces, is not
  empty, has no space at either end, and is the placeholder exactly when nothing is left
  of the input.
\<close>

theorem record_score_then_load:
  "load_leaderboard (save_score name0 sc Written f) =
     take 5 (sort_by_score (load_leaderboard f @ [\<lparr>e_name = sanitize name0, e_score = sc\<rparr>])) \<and>
   sorted_wrt (\<lambda>a b. e_score b \<le> e_score a) (load_leaderboard (save_score name0 sc Written f)) \<and>
   length (load_leaderboard (save_score name0 sc Written f)) \<le> 5 \<and>
   save_score name0 sc Not_Opened f = f \<and>
   save_score name0 sc Cut_Short f = Some Malformed \<and>
   load_leaderboard (save_score name0 sc Cut_Short f) = [] \<and>
   sorted_wrt (\<lambda>a b. e_score b \<le> e_score a) (sort_by_score xs) \<and>
   mset (sort_by_score xs) = mset xs \<and>
   (\<forall>k. filter (\<lambda>e. e_score e = k) (sort_by_score xs) = filter (\<lambda>e. e_score e = k) xs) \<and>
   set (sanitize name0) \<subseteq> Collect allowed \<and> sanitize name0 \<noteq> [] \<and>
   \<not> is_space (hd (sanitize name0)) \<and> \<not> is_space (last (sanitize name0)) \<and>
   sanitize name0 =
     (if strip (filter allowed name0) = [] then ''Anonymous'' else strip (filter allowed name0))"
proof -
  have l: "load_leaderboard (save_score name0 sc Written f) =
     take 5 (sort_by_score (load_leaderboard f @ [\<lparr>e_name = sanitize name0, e_score = sc\<rparr>]))"
    by (simp add: save_score_def save_leaderboard_def load_leaderboard_def)
  have w: "save_score name0 sc Not_Opened f = f" "save_score name0 sc Cut_Short f = Some Malformed"
    "load_leaderboard (save_score name0 sc Cut_Short f) = []"
    by (simp_all add: save_score_def save_leaderboard_def load_leaderboard_def)
  have st: "filter (\<lambda>e. e_score e = k) (sort_by_score xs) = filter (\<lambda>e. e_score e = k) xs" for k
    using sort_key_stable [of "\<lambda>x. - e_score x" "- k" xs]
    by (simp add: sort_by_score_def)
  have an: "set ''Anonymous'' \<subseteq> Collect allowed" "\<not> is_space (hd ''Anonymous'')"
    "\<not> is_space (last ''Anonymous'')"
    by (simp_all add: allowed_def is_space_def)
  have "set (strip (filter allowed name0)) \<subseteq> Collect allowed"
    using strip_subset [of "filter allowed name0"] by auto
  with an strip_ends [of "filter allowed name0"]
  have sn: "set (sanitize name0) \<subseteq> Collect allowed" "sanitize name0 \<noteq> []"
    "\<not> is_space (hd (sanitize name0))" "\<not> is_space (last (sanitize name0))"
    by (simp_all add: sanitize_def Let_def)
  show ?thesis
    using l w st sn sorted_by_score [of xs]
      sorted_by_score [of "load_leaderboard f @ [\<lparr>e_name = sanitize name0, e_score = sc\<rparr>]"]
    by (simp add: sorted_wrt_take sort_by_score_def sanitize_def Let_def)
qed

theorem record_score_then_load_witness:
  "load_leaderboard (save_score ''Fay!'' 7 Written (Some (Json ex_board))) =
     [\<lparr>e_name = ''Ann'', e_score = 9\<rparr>, \<lparr>e_name = ''Bob'', e_score = 7\<rparr>,
      \<lparr>e_name = ''Cy'', e_score = 7\<rparr>, \<lparr>e_name = ''Fay'', e_score = 7\<rparr>,
      \<lparr>e_name = ''Di'', e_score = 3\<rparr>] \<and>
   save_score ''Fay!'' 7 Not_Opened (Some (Json ex_board)) = Some (Json ex_board) \<and>
   sanitize ''Al*ice 99'' = ''Alice 99'' \<and> sanitize '' *!? '' = ''Anonymous''"
  using record_score_then_load [of "''Fay!''" 7 "Some (Json ex_board)" "[]"]
    ex_board_sorted sanitize_examples
  by (simp add: load_leaderboard_def)

text \<open>
  The claim as written fails when the write fails: the leaderboard file cannot be opened
  (the path is a directory), the score is not saved, and the next load returns no entry
  where the claim has the recorded one.
\<close>

theorem failed_write_counterexample:
  "save_score ''Al'' 3 Not_Opened (Some Unreadable) = Some Unreadable \<and>
   load_leaderboard (save_score ''Al'' 3 Not_Opened (Some Unreadable)) = [] \<and>
   take 5 (sort_by_score (load_leaderboard (Some Unreadable) @
      [\<lparr>e_name = sanitize ''Al'', e_score = 3\<rparr>])) = [\<lparr>e_name = ''Al'', e_score = 3\<rparr>]"
  using ex_al_sorted
  by (simp add: save_score_def save_leaderboard_def load_leaderboard_def)

text \<open>
  C9. The S key selects the save branch exactly when the snake is heading up; heading
  any other way it is taken as the move-down request, which sets the direction to down,
  and nothing is saved.
\<close>

theorem save_key_only_when_up:
  "dispatch K_s d = (if d = (0, - CELL_SIZE) then Save_Game else Set_Direction (0, CELL_SIZE))"
  by (simp add: dispatch_def)

text \<open>
  C10. \<^verbatim>\<open>game_loop\<close> reads the save file before its loop, with no key pressed, and the
  Restart button of the pause menu runs the same \<^verbatim>\<open>game_loop\<close>. For a positive speed:
  when the file holds a document that \<^verbatim>\<open>load_game_state\<close> accepts, play begins with
  the snake body, direction, food, obstacles and powerups that are the tuples of the
  document's fields of those names, with score, active effect and timer read from the
  document, and with the interval of the loaded effect; in particular a file that holds
  the snapshot of a session \<open>s\<close> resumes with the body, direction, food, obstacles,
  powerups, skins, score, effect and timer of \<open>s\<close>. When the file holds no document that
  is accepted, play begins with a new session: a one-segment snake at the grid centre
  heading right, food at a drawn position, no obstacles or powerups, score 0, no effect,
  the base interval.
\<close>

theorem game_loop_start_from_save:
  assumes "0 < speed cfg"
  shows "(\<forall>doc l. f = Some (Json doc) \<and> load_game_state doc = Some l \<longrightarrow>
            (\<exists>sc pa pt.
               dict_get doc ''score'' (JInt 0) = Inr sc \<and>
               dict_get doc ''powerup_active'' JNull = Inr pa \<and>
               dict_get doc ''powerup_timer'' (JInt 0) = Inr pt \<and>
               game_loop_start cfg draws f =
                 Inr (Resumed \<lparr>entities = l, r_score = sc, r_powerup_active = pa,
                        r_powerup_timer = pt,
                        r_move_interval =
                          (if pa = JStr ''speed_boost'' then max 50 (1000 div (speed cfg + 10))
                           else if pa = JStr ''slow_down'' then 1000 div max 1 (speed cfg - 5)
                           else 1000 div speed cfg)\<rparr>, f)) \<and>
            (\<exists>sv dv fv ov pv ps.
               getitem doc ''snake'' = Some sv \<and> tuples sv = Some (l_body l) \<and>
               getitem doc ''direction'' = Some dv \<and> py_iter dv = Some (l_direction l) \<and>
               getitem doc ''food_pos'' = Some fv \<and> py_iter fv = Some (l_food_position l) \<and>
               getitem doc ''obstacles'' = Some ov \<and> tuples ov = Some (l_obstacles l) \<and>
               getitem doc ''powerups'' = Some pv \<and> py_iter pv = Some ps \<and>
               all_some (map powerup_of ps) = Some (l_powerups l))) \<and>
         game_loop_start cfg draws (Some (Json (save_game_state s))) =
           Inr (Resumed
                 \<lparr>entities =
                    \<lparr>l_body = map pos_tuple (body s), l_direction = pos_tuple (direction s),
                     l_snake_skin = JInt (snake_skin_idx s),
                     l_food_position = pos_tuple (food_position s),
                     l_food_skin = JInt (food_skin_idx s),
                     l_obstacles = map pos_tuple (obstacles s),
                     l_powerups = map (\<lambda>p. (pos_tuple (position p), ptype_of p)) (powerups s)\<rparr>,
                  r_score = JInt (score s),
                  r_powerup_active =
                    (case powerup_active s of None \<Rightarrow> JNull | Some t \<Rightarrow> JStr (ptype_name t)),
                  r_powerup_timer = JInt (powerup_timer s),
                  r_move_interval =
                    (case powerup_active s of
                       None \<Rightarrow> 1000 div speed cfg
                     | Some speed_boost \<Rightarrow> max 50 (1000 div (speed cfg + 10))
                     | Some slow_down \<Rightarrow> 1000 div max 1 (speed cfg - 5))\<rparr>,
                Some (Json (save_game_state s))) \<and>
         ((\<forall>doc. f = Some (Json doc) \<longrightarrow> load_game_state doc = None) \<longrightarrow>
            (\<exists>k. game_loop_start cfg draws f =
                   Inr (New_Session (new_session cfg (1000 div speed cfg) (draws k)),
                        fst (snd (load_game f))) \<and>
                 new_session cfg (1000 div speed cfg) (draws k) =
                   \<lparr>body = [((width cfg div CELL_SIZE) div 2 * CELL_SIZE,
                              (height cfg div CELL_SIZE) div 2 * CELL_SIZE)],
                    direction = (CELL_SIZE, 0), snake_skin_idx = cfg_snake_skin cfg,
                    food_position = (fst (draws k) * CELL_SIZE, snd (draws k) * CELL_SIZE),
                    food_skin_idx = cfg_fruit_skin cfg, obstacles = [], powerups = [],
                    score = 0, powerup_active = None, powerup_timer = 0,
                    move_interval = 1000 div speed cfg\<rparr> \<and>
                 body (new_session cfg (1000 div speed cfg) (draws k)) = [start_pos cfg] \<and>
                 score (new_session cfg (1000 div speed cfg) (draws k)) = 0)) \<and>
         pause_click cfg draws f Restart = Restarted (game_loop_start cfg draws f)"
proof (intro conjI allI impI)
  fix doc l
  assume a: "f = Some (Json doc) \<and> load_game_state doc = Some l"
  then obtain kvs where d: "doc = JObj kvs" "kvs \<noteq> []"
    using load_game_state_dict by blast
  obtain sc pa pt where g: "dict_get doc ''score'' (JInt 0) = Inr sc"
    "dict_get doc ''powerup_active'' JNull = Inr pa"
    "dict_get doc ''powerup_timer'' (JInt 0) = Inr pt"
    using dict_get_JObj [of kvs] unfolding d(1) by meson
  have "game_loop_start cfg draws f =
      Inr (Resumed \<lparr>entities = l, r_score = sc, r_powerup_active = pa, r_powerup_timer = pt,
             r_move_interval =
               (if pa = JStr ''speed_boost'' then max 50 (1000 div (speed cfg + 10))
                else if pa = JStr ''slow_down'' then 1000 div max 1 (speed cfg - 5)
                else 1000 div speed cfg)\<rparr>, f)"
    using a d(2) g
    by (simp add: game_loop_start_def base_interval_pos [OF assms] load_game_def truthy_def d(1)
        resume_def reapply_speed_pos [OF assms])
  with g show "\<exists>sc pa pt.
       dict_get doc ''score'' (JInt 0) = Inr sc \<and>
       dict_get doc ''powerup_active'' JNull = Inr pa \<and>
       dict_get doc ''powerup_timer'' (JInt 0) = Inr pt \<and>
       game_loop_start cfg draws f =
         Inr (Resumed \<lparr>entities = l, r_score = sc, r_powerup_active = pa,
                r_powerup_timer = pt,
                r_move_interval =
                  (if pa = JStr ''speed_boost'' then max 50 (1000 div (speed cfg + 10))
                   else if pa = JStr ''slow_down'' then 1000 div max 1 (speed cfg - 5)
                   else 1000 div speed cfg)\<rparr>, f)"
    by blast
  from a load_game_state_fields [of doc l]
  show "\<exists>sv dv fv ov pv ps.
       getitem doc ''snake'' = Some sv \<and> tuples sv = Some (l_body l) \<and>
       getitem doc ''direction'' = Some dv \<and> py_iter dv = Some (l_direction l) \<and>
       getitem doc ''food_pos'' = Some fv \<and> py_iter fv = Some (l_food_position l) \<and>
       getitem doc ''obstacles'' = Some ov \<and> tuples ov = Some (l_obstacles l) \<and>
       getitem doc ''powerups'' = Some pv \<and> py_iter pv = Some ps \<and>
       all_some (map powerup_of ps) = Some (l_powerups l)"
    by blast
next
  let ?doc = "save_game_state s"
  have t: "truthy ?doc" by (simp add: save_game_state_def truthy_def)
  have g: "dict_get ?doc ''score'' (JInt 0) = Inr (JInt (score s))"
    "dict_get ?doc ''powerup_active'' JNull =
       Inr (case powerup_active s of None \<Rightarrow> JNull | Some t \<Rightarrow> JStr (ptype_name t))"
    "dict_get ?doc ''powerup_timer'' (JInt 0) = Inr (JInt (powerup_timer s))"
    by (simp_all add: save_game_state_def dict_get_def)
  have r: "reapply_speed cfg (1000 div speed cfg)
        (case powerup_active s of None \<Rightarrow> JNull | Some t \<Rightarrow> JStr (ptype_name t)) =
      Inr (case powerup_active s of
             None \<Rightarrow> 1000 div speed cfg
           | Some speed_boost \<Rightarrow> max 50 (1000 div (speed cfg + 10))
           | Some slow_down \<Rightarrow> 1000 div max 1 (speed cfg - 5))"
    by (simp add: reapply_speed_pos [OF assms] ptype_name_def split: option.splits ptype.splits)
  show "game_loop_start cfg draws (Some (Json ?doc)) =
      Inr (Resumed
            \<lparr>entities =
               \<lparr>l_body = map pos_tuple (body s), l_direction = pos_tuple (direction s),
                l_snake_skin = JInt (snake_skin_idx s),
                l_food_position = pos_tuple (food_position s),
                l_food_skin = JInt (food_skin_idx s),
                l_obstacles = map pos_tuple (obstacles s),
                l_powerups = map (\<lambda>p. (pos_tuple (position p), ptype_of p)) (powerups s)\<rparr>,
             r_score = JInt (score s),
             r_powerup_active =
               (case powerup_active s of None \<Rightarrow> JNull | Some t \<Rightarrow> JStr (ptype_name t)),
             r_powerup_timer = JInt (powerup_timer s),
             r_move_interval =
               (case powerup_active s of
                  None \<Rightarrow> 1000 div speed cfg
                | Some speed_boost \<Rightarrow> max 50 (1000 div (speed cfg + 10))
                | Some slow_down \<Rightarrow> 1000 div max 1 (speed cfg - 5))\<rparr>,
           Some (Json ?doc))"
    by (simp add: game_loop_start_def base_interval_pos [OF assms] load_game_def t
        load_game_state_saved resume_def g r loaded_of_def)
next
  assume n: "\<forall>doc. f = Some (Json doc) \<longrightarrow> load_game_state doc = None"
  have "game_loop_start cfg draws f =
          Inr (New_Session (new_session cfg (1000 div speed cfg) (draws 0)), fst (snd (load_game f)))
        \<or> game_loop_start cfg draws f =
          Inr (New_Session (new_session cfg (1000 div speed cfg) (draws 1)), fst (snd (load_game f)))"
    using n
    by (auto simp: game_loop_start_def base_interval_pos [OF assms] load_game_def truthy_def
        split: option.splits stored.splits)
  then show "\<exists>k. game_loop_start cfg draws f =
       Inr (New_Session (new_session cfg (1000 div speed cfg) (draws k)), fst (snd (load_game f))) \<and>
       new_session cfg (1000 div speed cfg) (draws k) =
         \<lparr>body = [((width cfg div CELL_SIZE) div 2 * CELL_SIZE,
                    (height cfg div CELL_SIZE) div 2 * CELL_SIZE)],
          direction = (CELL_SIZE, 0), snake_skin_idx = cfg_snake_skin cfg,
          food_position = (fst (draws k) * CELL_SIZE, snd (draws k) * CELL_SIZE),
          food_skin_idx = cfg_fruit_skin cfg, obstacles = [], powerups = [],
          score = 0, powerup_active = None, powerup_timer = 0,
          move_interval = 1000 div speed cfg\<rparr> \<and>
       body (new_session cfg (1000 div speed cfg) (draws k)) = [start_pos cfg] \<and>
       score (new_session cfg (1000 div speed cfg) (draws k)) = 0"
    by (auto simp: new_session_def start_pos_def random_position_def)
next
  show "pause_click cfg draws f Restart = Restarted (game_loop_start cfg draws f)"
    by (simp add: pause_click_def)
qed

theorem game_loop_start_from_save_witness:
  "0 < speed ex_cfg \<and> load_game_state ex_doc = Some ex_loaded \<and>
   game_loop_start ex_cfg (\<lambda>n. (3, 4)) (Some (Json ex_doc)) =
     Inr (Resumed \<lparr>entities = ex_loaded, r_score = JInt 7, r_powerup_active = JStr ''speed_boost'',
            r_powerup_timer = JInt 30, r_move_interval = 50\<rparr>, Some (Json ex_doc)) \<and>
   load_game_state (JObj [(''score'', JInt 7)]) = None \<and>
   (\<exists>k. game_loop_start ex_cfg (\<lambda>n. (3, 4)) (Some (Json (JObj [(''score'', JInt 7)]))) =
     Inr (New_Session (new_session ex_cfg 66 ((\<lambda>n. (3, 4)) k)),
          Some (Json (JObj [(''score'', JInt 7)]))) \<and>
     new_session ex_cfg 66 ((\<lambda>n. (3, 4)) k) =
       \<lparr>body = [(400, 300)], direction = (20, 0), snake_skin_idx = 0,
        food_position = (60, 80), food_skin_idx = 0, obstacles = [], powerups = [],
        score = 0, powerup_active = None, powerup_timer = 0, move_interval = 66\<rparr>)"
proof -
  have s: "0 < speed ex_cfg" by (simp add: ex_cfg_def)
  have d: "dict_get ex_doc ''score'' (JInt 0) = Inr (JInt 7)"
    "dict_get ex_doc ''powerup_active'' JNull = Inr (JStr ''speed_boost'')"
    "dict_get ex_doc ''powerup_timer'' (JInt 0) = Inr (JInt 30)"
    by (simp_all add: ex_doc_def dict_get_def)
  have n: "load_game_state (JObj [(''score'', JInt 7)]) = None"
    by (simp add: load_game_state_def getitem_def)
  from game_loop_start_from_save
    [OF s, where f = "Some (Json ex_doc)" and draws = "\<lambda>n. (3, 4)"] ex_doc_loads d
  have a: "game_loop_start ex_cfg (\<lambda>n. (3, 4)) (Some (Json ex_doc)) =
     Inr (Resumed \<lparr>entities = ex_loaded, r_score = JInt 7, r_powerup_active = JStr ''speed_boost'',
            r_powerup_timer = JInt 30, r_move_interval = 50\<rparr>, Some (Json ex_doc))"
    by (simp add: ex_cfg_def)
  from game_loop_start_from_save
    [OF s, where f = "Some (Json (JObj [(''score'', JInt 7)]))" and draws = "\<lambda>n. (3, 4)"] n
  have b: "\<exists>k. game_loop_start ex_cfg (\<lambda>n. (3, 4)) (Some (Json (JObj [(''score'', JInt 7)]))) =
     Inr (New_Session (new_session ex_cfg 66 ((\<lambda>n. (3, 4)) k)),
          Some (Json (JObj [(''score'', JInt 7)]))) \<and>
     new_session ex_cfg 66 ((\<lambda>n. (3, 4)) k) =
       \<lparr>body = [(400, 300)], direction = (20, 0), snake_skin_idx = 0,
        food_position = (60, 80), food_skin_idx = 0, obstacles = [], powerups = [],
        score = 0, powerup_active = None, powerup_timer = 0, move_interval = 66\<rparr>"
    by (simp add: ex_cfg_def load_game_def CELL_SIZE_def)
  from s ex_doc_loads a n b show ?thesis by blast
qed

end
